theory Spec2Isabelle
  imports Complex_Main
begin

section \<open>Python strings and the interpreter's character tables\<close>

text \<open>
  A Python \<open>str\<close> is a sequence of Unicode code points, so a string is modelled as a
  list of integers (the values of \<open>ord\<close>); \<open>len\<close> is \<open>length\<close>. Bytes are
  integers as well. \<open>str\<close> turns an ASCII literal of the theory into such a list;
  code points beyond ASCII are written as numbers (\<open>0xE1\<close> is a-acute, \<open>0xB2\<close>
  superscript two, \<open>0xF1\<close> n-tilde, \<open>0xC2\<close>, \<open>0xC3\<close>, \<open>0xB1\<close>, \<open>0xA1\<close> the Latin-1
  characters that mojibake shows in their place).
\<close>

type_synonym pystr = "int list"

definition str :: "string \<Rightarrow> pystr" where
  "str s = map of_char s"

text \<open>
  \<open>\d\<close> in a \<open>str\<close> pattern, \<open>int\<close> and \<open>float\<close> accept every code point with the
  Unicode property Decimal (category Nd). Such code points come in runs of ten, zero
  first; \<open>decimal_zeros\<close> lists the zero of each run (Unicode 14, the table of
  CPython 3.11).
\<close>

definition decimal_zeros :: "int list" where
  "decimal_zeros =
    [0x30, 0x660, 0x6F0, 0x7C0, 0x966, 0x9E6, 0xA66, 0xAE6, 0xB66, 0xBE6, 0xC66, 0xCE6,
     0xD66, 0xDE6, 0xE50, 0xED0, 0xF20, 0x1040, 0x1090, 0x17E0, 0x1810, 0x1946, 0x19D0,
     0x1A80, 0x1A90, 0x1B50, 0x1BB0, 0x1C40, 0x1C50, 0xA620, 0xA8D0, 0xA900, 0xA9D0,
     0xA9F0, 0xAA50, 0xABF0, 0xFF10, 0x104A0, 0x10D30, 0x11066, 0x110F0, 0x11136,
     0x111D0, 0x112F0, 0x11450, 0x114D0, 0x11650, 0x116C0, 0x11730, 0x118E0, 0x11950,
     0x11C50, 0x11D50, 0x11DA0, 0x16A60, 0x16AC0, 0x16B50, 0x1D7CE, 0x1D7D8, 0x1D7E2,
     0x1D7EC, 0x1D7F6, 0x1E140, 0x1E2F0, 0x1E950, 0x1FBF0]"

definition decimal_value :: "int \<Rightarrow> int option" where
  "decimal_value c =
     (if c < 0x80 then (if 0x30 \<le> c \<and> c \<le> 0x39 then Some (c - 0x30) else None)
      else (case find (\<lambda>z. z \<le> c \<and> c < z + 10) decimal_zeros of
              None \<Rightarrow> None
            | Some z \<Rightarrow> Some (c - z)))"

definition is_decimal :: "int \<Rightarrow> bool" where
  "is_decimal c = (decimal_value c \<noteq> None)"

text \<open>\<open>\s\<close>, \<open>str.strip\<close> and \<open>str.isspace\<close> share one table of white space.\<close>

definition is_space :: "int \<Rightarrow> bool" where
  "is_space c =
     ((0x09 \<le> c \<and> c \<le> 0x0D) \<or> (0x1C \<le> c \<and> c \<le> 0x20) \<or> c = 0x85 \<or> c = 0xA0 \<or>
      c = 0x1680 \<or> (0x2000 \<le> c \<and> c \<le> 0x200A) \<or> c = 0x2028 \<or> c = 0x2029 \<or>
      c = 0x202F \<or> c = 0x205F \<or> c = 0x3000)"

text \<open>
  Case-insensitive matching lowers the subject character with the simple lowercase
  mapping and compares it with the lowered pattern character and its extra cases
  (characters with the same uppercase). Every literal of the patterns below is in
  Latin-1, so \<open>to_lower\<close> is written out for the code points whose lowercase lies
  below \<open>0x100\<close> or is an extra case of such a character; any other code point is
  returned as it is, which never equals one of those.
\<close>

definition to_lower :: "int \<Rightarrow> int" where
  "to_lower c =
     (if (0x41 \<le> c \<and> c \<le> 0x5A) \<or> (0xC0 \<le> c \<and> c \<le> 0xDE \<and> c \<noteq> 0xD7) then c + 0x20
      else if c = 0x130 then 0x69
      else if c = 0x178 then 0xFF
      else if c = 0x39C then 0x3BC
      else if c = 0x1E9E then 0xDF
      else if c = 0x212A then 0x6B
      else if c = 0x212B then 0xE5
      else c)"

definition extra_cases :: "int \<Rightarrow> int list" where
  "extra_cases c =
     (if c = 0x69 then [0x131] else if c = 0x73 then [0x17F]
      else if c = 0xB5 then [0x3BC] else [])"

section \<open>Text normaliser (core/utils.py)\<close>

text \<open>\<open>_CLEAN_SPACES.sub(" ", s)\<close>: every maximal run of white space becomes one space.\<close>

function sub_spaces :: "pystr \<Rightarrow> pystr" where
  "sub_spaces [] = []"
| "sub_spaces (c # cs) =
     (if is_space c then 0x20 # sub_spaces (dropWhile is_space cs)
      else c # sub_spaces cs)"
  by pat_completeness auto
termination
  by (relation "measure length") (auto simp: le_imp_less_Suc length_dropWhile_le)

definition strip :: "pystr \<Rightarrow> pystr" where
  "strip s = rev (dropWhile is_space (rev (dropWhile is_space s)))"

definition clean_text :: "pystr \<Rightarrow> pystr" where
  "clean_text s = strip (sub_spaces s)"

text \<open>
  \<open>s.encode("latin1")\<close> raises UnicodeEncodeError unless every code point is below
  256; \<open>bytes.decode("utf-8")\<close> raises UnicodeDecodeError unless the bytes are
  well-formed UTF-8 (shortest form, no surrogates, at most \<open>0x10FFFF\<close>). None stands for
  the exception.
\<close>

definition encode_latin1 :: "pystr \<Rightarrow> int list option" where
  "encode_latin1 s = (if list_all (\<lambda>c. 0 \<le> c \<and> c < 0x100) s then Some s else None)"

definition continuation :: "int \<Rightarrow> bool" where
  "continuation b = (0x80 \<le> b \<and> b \<le> 0xBF)"

fun decode_utf8 :: "int list \<Rightarrow> pystr option" where
  "decode_utf8 [] = Some []"
| "decode_utf8 (b # bs) =
     (if 0 \<le> b \<and> b < 0x80 then map_option ((#) b) (decode_utf8 bs)
      else if 0xC2 \<le> b \<and> b \<le> 0xDF then
        (case bs of
           b1 # r \<Rightarrow>
             if continuation b1
             then map_option ((#) ((b - 0xC0) * 0x40 + (b1 - 0x80))) (decode_utf8 r)
             else None
         | _ \<Rightarrow> None)
      else if 0xE0 \<le> b \<and> b \<le> 0xEF then
        (case bs of
           b1 # b2 # r \<Rightarrow>
             if (if b = 0xE0 then 0xA0 \<le> b1 \<and> b1 \<le> 0xBF
                 else if b = 0xED then 0x80 \<le> b1 \<and> b1 \<le> 0x9F
                 else continuation b1) \<and> continuation b2
             then map_option
                    ((#) ((b - 0xE0) * 0x1000 + (b1 - 0x80) * 0x40 + (b2 - 0x80)))
                    (decode_utf8 r)
             else None
         | _ \<Rightarrow> None)
      else if 0xF0 \<le> b \<and> b \<le> 0xF4 then
        (case bs of
           b1 # b2 # b3 # r \<Rightarrow>
             if (if b = 0xF0 then 0x90 \<le> b1 \<and> b1 \<le> 0xBF
                 else if b = 0xF4 then 0x80 \<le> b1 \<and> b1 \<le> 0x8F
                 else continuation b1) \<and> continuation b2 \<and> continuation b3
             then map_option
                    ((#) ((b - 0xF0) * 0x40000 + (b1 - 0x80) * 0x1000 + (b2 - 0x80) * 0x40
                          + (b3 - 0x80)))
                    (decode_utf8 r)
             else None
         | _ \<Rightarrow> None)
      else None)"

text \<open>
  \<open>s.encode("latin1").decode("utf-8")\<close>, and \<open>fix_mojibake\<close>, whose \<open>except\<close>
  clause returns \<open>s\<close> whichever of the two steps raised.
\<close>

definition round_trip :: "pystr \<Rightarrow> pystr option" where
  "round_trip s = (case encode_latin1 s of None \<Rightarrow> None | Some bs \<Rightarrow> decode_utf8 bs)"

definition fix_mojibake :: "pystr \<Rightarrow> pystr" where
  "fix_mojibake s =
     (if s = [] then s
      else (case round_trip s of None \<Rightarrow> s | Some t \<Rightarrow> t))"

section \<open>The interpreter's conversions and exceptions\<close>

text \<open>
  Exceptions are values. \<open>ValueError\<close> carries its message, \<open>AttributeError\<close> is
  the failure of a method call on \<open>None\<close>, and \<open>Raised\<close> is an exception of a
  library (the HTML parser and its selector engine) with its message.
\<close>

datatype exn = ValueError pystr | AttributeError | Raised pystr


text \<open>The value of a string of decimal digits, most significant first.\<close>

definition digits_value :: "pystr \<Rightarrow> int" where
  "digits_value ds = foldl (\<lambda>acc d. 10 * acc + (case decimal_value d of None \<Rightarrow> 0 | Some v \<Rightarrow> v)) 0 ds"

text \<open>\<open>str(n)\<close> for a natural number: its decimal numeral.\<close>

fun show_nat :: "nat \<Rightarrow> pystr" where
  "show_nat n =
     (if n < 10 then [0x30 + int n] else show_nat (n div 10) @ [0x30 + int (n mod 10)])"

declare show_nat.simps [simp del]

text \<open>
  The two messages of the \<open>ValueError\<close> of \<open>int\<close>. The rejected literal is shown
  between quotes, as \<open>repr\<close> does for a literal without quotes, backslashes or
  unprintable characters. \<open>int_max_str_digits\<close> is the interpreter's limit on the
  number of digits of a literal, \<open>sys.get_int_max_str_digits()\<close>, 4300 unless the
  program changes it, which this one does not.
\<close>

definition invalid_literal :: "pystr \<Rightarrow> pystr" where
  "invalid_literal s = str ''invalid literal for int() with base 10: '' @ [0x27] @ s @ [0x27]"

definition int_max_str_digits :: nat where
  "int_max_str_digits = 4300"

definition exceeds_limit :: "nat \<Rightarrow> pystr" where
  "exceeds_limit n =
     str ''Exceeds the limit ('' @ show_nat int_max_str_digits
     @ str '' digits) for integer string conversion: value has '' @ show_nat n
     @ str '' digits; use sys.set_int_max_str_digits() to increase the limit''"

text \<open>
  \<open>int(s)\<close> for a string: white space around it stripped, an optional sign, then
  decimal digits. The interpreter first counts the digits up to the first character
  that is none, and raises if they are more than \<open>int_max_str_digits\<close>; only then
  does it reject a literal with another character in it. Literals with underscores
  between digits are accepted by Python and not by this model.
\<close>

definition unsign :: "pystr \<Rightarrow> bool \<times> pystr" where
  "unsign s =
     (case s of
        [] \<Rightarrow> (False, [])
      | c # r \<Rightarrow> if c = 0x2D then (True, r) else if c = 0x2B then (False, r) else (False, s))"

definition py_int :: "pystr \<Rightarrow> exn + int" where
  "py_int s =
     (let (neg, ds) = unsign (strip s);
          n = length (takeWhile is_decimal ds)
      in if int_max_str_digits < n then Inl (ValueError (exceeds_limit n))
         else if ds \<noteq> [] \<and> list_all is_decimal ds
         then Inr (if neg then - digits_value ds else digits_value ds)
         else Inl (ValueError (invalid_literal s)))"

text \<open>
  \<open>float(s)\<close> for a string: white space stripped, an optional sign, digits with at
  most one period and at least one digit. Python returns the double nearest to the
  decimal numeral; the model keeps the numeral's exact value as a rational, of which
  the double is the correctly rounded image (equal numerals have equal doubles, and the
  rounding of a non-negative value is non-negative). \<open>None\<close> is \<open>ValueError\<close>.
  Exponents, \<open>inf\<close>, \<open>nan\<close> and underscores, which \<open>float\<close> accepts too, contain a
  character that is no digit, sign or period; they are not modelled.
\<close>

definition py_float :: "pystr \<Rightarrow> rat option" where
  "py_float s =
     (let (neg, u) = unsign (strip s);
          ip = takeWhile is_decimal u;
          r = dropWhile is_decimal u;
          sgn = (\<lambda>v::rat. if neg then - v else v)
      in case r of
           [] \<Rightarrow> if ip = [] then None else Some (sgn (of_int (digits_value ip)))
         | c # fp \<Rightarrow>
             if c = 0x2E \<and> list_all is_decimal fp \<and> (ip \<noteq> [] \<or> fp \<noteq> [])
             then Some (sgn (of_int (digits_value (ip @ fp)) / 10 ^ length fp))
             else None)"

text \<open>\<open>s.replace(old, new)\<close> for a one-character \<open>old\<close>.\<close>

definition replace :: "int \<Rightarrow> pystr \<Rightarrow> pystr \<Rightarrow> pystr" where
  "replace old new s = concat (map (\<lambda>c. if c = old then new else [c]) s)"

section \<open>Regular expressions: the backtracking matcher of \<open>re\<close>\<close>

text \<open>
  The patterns of the program use single characters and character sets, sequence,
  alternation, a greedy optional, greedy and lazy repetition of one character set
  without upper bound, and capturing groups. \<open>item\<close> is one member of a character
  set (\<open>AnyChar\<close> is the dot under DOTALL), a \<open>charset\<close> is their union.
\<close>

datatype item = Lit int | Rng int int | Digit | Space | AnyChar

type_synonym charset = "item list"

datatype re =
    Eps
  | In charset
  | Seq re re
  | Alt re re
  | Opt re
  | MaxRep nat charset
  | MinRep nat charset
  | Grp string re

text \<open>The first argument is the flag IGNORECASE.\<close>

definition lit_match :: "bool \<Rightarrow> int \<Rightarrow> int \<Rightarrow> bool" where
  "lit_match ic p c =
     (if ic then to_lower c \<in> set (to_lower p # extra_cases (to_lower p)) else c = p)"

fun item_match :: "bool \<Rightarrow> item \<Rightarrow> int \<Rightarrow> bool" where
  "item_match ic (Lit p) c = lit_match ic p c"
| "item_match ic (Rng lo hi) c =
     (if ic then list_ex (\<lambda>p. lit_match ic p c) [lo..hi] else lo \<le> c \<and> c \<le> hi)"
| "item_match ic Digit c = is_decimal c"
| "item_match ic Space c = is_space c"
| "item_match ic AnyChar c = True"

definition in_set :: "bool \<Rightarrow> charset \<Rightarrow> int \<Rightarrow> bool" where
  "in_set ic cs c = list_ex (\<lambda>i. item_match ic i c) cs"

text \<open>
  Captured groups, most recent first: \<open>group g n\<close> is \<open>m.group(n)\<close>, \<open>None\<close> for a
  group that took no part in the match.
\<close>

type_synonym groups = "(string \<times> pystr) list"

definition group :: "groups \<Rightarrow> string \<Rightarrow> pystr option" where
  "group g n = map_of g n"

text \<open>
  The matcher tries the alternatives in the order of \<open>re\<close> and hands each partial
  match to the continuation \<open>k\<close>, which matches the rest of the pattern; a failure of
  \<open>k\<close> makes it backtrack to the next alternative. A greedy repetition tries the
  longest run first and gives characters back one at a time, a lazy one starts with the
  shortest.
\<close>

fun max_rep :: "(int \<Rightarrow> bool) \<Rightarrow> nat \<Rightarrow> pystr \<Rightarrow> (pystr \<Rightarrow> 'a option) \<Rightarrow> 'a option" where
  "max_rep p n [] k = (if n = 0 then k [] else None)"
| "max_rep p n (c # cs) k =
     (if p c then
        (case max_rep p (n - 1) cs k of
           Some r \<Rightarrow> Some r
         | None \<Rightarrow> if n = 0 then k (c # cs) else None)
      else if n = 0 then k (c # cs) else None)"

fun min_rep :: "(int \<Rightarrow> bool) \<Rightarrow> nat \<Rightarrow> pystr \<Rightarrow> (pystr \<Rightarrow> 'a option) \<Rightarrow> 'a option" where
  "min_rep p n [] k = (if n = 0 then k [] else None)"
| "min_rep p n (c # cs) k =
     (if n = 0 then
        (case k (c # cs) of
           Some r \<Rightarrow> Some r
         | None \<Rightarrow> if p c then min_rep p 0 cs k else None)
      else if p c then min_rep p (n - 1) cs k else None)"

primrec rmatch ::
  "bool \<Rightarrow> re \<Rightarrow> pystr \<Rightarrow> groups \<Rightarrow> (pystr \<Rightarrow> groups \<Rightarrow> 'a option) \<Rightarrow> 'a option" where
  "rmatch ic Eps s g k = k s g"
| "rmatch ic (In cs) s g k =
     (case s of [] \<Rightarrow> None | c # r \<Rightarrow> if in_set ic cs c then k r g else None)"
| "rmatch ic (Seq a b) s g k = rmatch ic a s g (\<lambda>s' g'. rmatch ic b s' g' k)"
| "rmatch ic (Alt a b) s g k =
     (case rmatch ic a s g k of Some r \<Rightarrow> Some r | None \<Rightarrow> rmatch ic b s g k)"
| "rmatch ic (Opt a) s g k =
     (case rmatch ic a s g k of Some r \<Rightarrow> Some r | None \<Rightarrow> k s g)"
| "rmatch ic (MaxRep n cs) s g k = max_rep (in_set ic cs) n s (\<lambda>s'. k s' g)"
| "rmatch ic (MinRep n cs) s g k = min_rep (in_set ic cs) n s (\<lambda>s'. k s' g)"
| "rmatch ic (Grp n a) s g k =
     rmatch ic a s g (\<lambda>s' g'. k s' ((n, take (length s - length s') s) # g'))"

text \<open>\<open>pattern.search(s)\<close>: the first position from which the pattern matches.\<close>

primrec search :: "bool \<Rightarrow> re \<Rightarrow> pystr \<Rightarrow> groups option" where
  "search ic r [] = rmatch ic r [] [] (\<lambda>s' g. Some g)"
| "search ic r (c # cs) =
     (case rmatch ic r (c # cs) [] (\<lambda>s' g. Some g) of
        Some g \<Rightarrow> Some g
      | None \<Rightarrow> search ic r cs)"

text \<open>A sequence of patterns, and a word of literal characters.\<close>

definition seq :: "re list \<Rightarrow> re" where
  "seq rs = foldr Seq rs Eps"

definition word :: "pystr \<Rightarrow> re" where
  "word w = seq (map (\<lambda>c. In [Lit c]) w)"

section \<open>Numeric parsers (core/utils.py)\<close>

text \<open>\<^verbatim>\<open>(\d[\d\.,]*)\<close> and \<^verbatim>\<open>(\d+[\.,]?\d*)\<close>, compiled without flags.\<close>

definition money_re :: re where
  "money_re = Grp ''1'' (Seq (In [Digit]) (MaxRep 0 [Digit, Lit 0x2E, Lit 0x2C]))"

definition float_re :: re where
  "float_re = Grp ''1'' (seq [MaxRep 1 [Digit], Opt (In [Lit 0x2E, Lit 0x2C]), MaxRep 0 [Digit]])"

definition parse_money_to_float :: "pystr option \<Rightarrow> exn + rat option" where
  "parse_money_to_float text =
     (case text of
        None \<Rightarrow> Inr None
      | Some s \<Rightarrow>
          if s = [] then Inr None
          else
            (let t = fix_mojibake (clean_text s) in
             case search False money_re t of
               None \<Rightarrow> Inr None
             | Some m \<Rightarrow>
                 (case group m ''1'' of
                    None \<Rightarrow> Inl AttributeError
                  | Some num \<Rightarrow> Inr (py_float (replace 0x2C [] (replace 0x2E [] num))))))"

definition parse_float :: "pystr option \<Rightarrow> exn + rat option" where
  "parse_float text =
     (case text of
        None \<Rightarrow> Inr None
      | Some s \<Rightarrow>
          if s = [] then Inr None
          else
            (let t = fix_mojibake (clean_text s) in
             case search False float_re t of
               None \<Rightarrow> Inr None
             | Some m \<Rightarrow>
                 (case group m ''1'' of
                    None \<Rightarrow> Inl AttributeError
                  | Some raw \<Rightarrow>
                      Inr (py_float
                             (if 0x2C \<in> set raw \<and> 0x2E \<notin> set raw
                              then replace 0x2C [0x2E] raw
                              else replace 0x2C [] raw)))))"

section \<open>Data model (nexo/model.py)\<close>

record Tipologia =
  modelo :: pystr
  area_m2 :: "rat option"
  precio_desde :: "rat option"
  moneda :: "pystr option"
  unidades_disponibles :: "int option"
  piso_min :: "int option"
  piso_max :: "int option"
  dormitorios :: "int option"
  banos :: "int option"
  raw :: "pystr option"
  parse_ok :: bool

section \<open>Card parser (nexo/parser.py)\<close>

text \<open>
  \<open>CARD_RE\<close>, compiled with IGNORECASE, VERBOSE and DOTALL: the white space of the
  pattern's layout is no part of it, and the dot matches every character. One line of
  the definition is one line of the pattern.
\<close>

definition CARD_RE :: re where
  "CARD_RE = seq
    [Opt (Grp ''prefix'' (word (str ''Plano''))), MaxRep 0 [Space],
     Grp ''proyecto'' (MinRep 1 [AnyChar]), MaxRep 0 [Space],
     Grp ''unidades'' (MaxRep 1 [Digit]), MaxRep 1 [Space], word (str ''unidad''),
       Opt (word (str ''es'')), MaxRep 1 [Space], word (str ''disponible''),
       Opt (word (str ''s'')), MaxRep 0 [Space],
     MinRep 0 [AnyChar], word (str ''Desde''), MaxRep 0 [Space],
       Grp ''moneda'' (Alt (word (str ''S/'')) (word (str ''US$''))), MaxRep 0 [Space],
       Grp ''precio'' (MaxRep 1 [Digit, Lit 0x2E, Lit 0x2C]), MaxRep 0 [Space],
     MinRep 0 [AnyChar], word (str ''Modelo''), MaxRep 0 [Space],
       Grp ''modelo'' (MaxRep 1 [Rng 0x41 0x5A, Rng 0x61 0x7A, Rng 0x30 0x39, Lit 0x2D, Lit 0x5F]),
       MaxRep 0 [Space],
     MinRep 0 [AnyChar], Grp ''area'' (MaxRep 1 [Digit, Lit 0x2E, Lit 0x2C]), MaxRep 0 [Space],
       word (str ''m''), Alt (word [0xB2]) (Alt (word (str ''2'')) (word [0xC2, 0xB2])),
       MaxRep 0 [Space],
     MinRep 0 [AnyChar], word (str ''Piso''), Opt (word (str ''s'')), MaxRep 0 [Space],
       Grp ''piso_min'' (MaxRep 1 [Digit]),
       Opt (seq [MaxRep 0 [Space], word (str ''al''), MaxRep 0 [Space],
                 Grp ''piso_max'' (MaxRep 1 [Digit])]),
       MaxRep 0 [Space],
     MinRep 0 [AnyChar], Grp ''dorms'' (MaxRep 1 [Digit]), MaxRep 0 [Space],
       word (str ''dorm''), Opt (word (str ''s'')), MaxRep 0 [Space],
     MinRep 0 [AnyChar], Grp ''banos'' (MaxRep 1 [Digit]), MaxRep 0 [Space],
       word (str ''ba'' @ [0xF1]),
       Alt (word (str ''o''))
         (Alt (word (str ''os''))
            (Alt (word ([0xC3, 0xB1] @ str ''o'')) (word ([0xC3, 0xB1] @ str ''os'')))),
       MaxRep 0 [Space]]"

text \<open>An exception raised by a step leaves the function; otherwise the next step runs.\<close>

definition try_bind :: "exn + 'a \<Rightarrow> ('a \<Rightarrow> exn + 'b) \<Rightarrow> exn + 'b" where
  "try_bind x f = (case x of Inl e \<Rightarrow> Inl e | Inr v \<Rightarrow> f v)"

text \<open>How an f-string shows a group: its text, or \<open>None\<close> written out.\<close>

definition fmt :: "pystr option \<Rightarrow> pystr" where
  "fmt v = (case v of None \<Rightarrow> str ''None'' | Some s \<Rightarrow> s)"

text \<open>\<open>int(g[n]) if g.get(n) else d\<close>: an absent or empty group gives the default.\<close>

definition int_if_set :: "pystr option \<Rightarrow> int option \<Rightarrow> exn + int option" where
  "int_if_set v d =
     (case v of
        None \<Rightarrow> Inr d
      | Some s \<Rightarrow> if s = [] then Inr d else try_bind (py_int s) (\<lambda>i. Inr (Some i)))"

definition parse_card_text :: "pystr \<Rightarrow> exn + Tipologia" where
  "parse_card_text txt =
     (let raw' = fix_mojibake (clean_text txt) in
      case search True CARD_RE raw' of
        None \<Rightarrow>
          try_bind (parse_float (Some raw')) (\<lambda>area.
          try_bind (parse_money_to_float (Some raw')) (\<lambda>precio.
          Inr \<lparr>modelo = [], area_m2 = area, precio_desde = precio, moneda = None,
               unidades_disponibles = None, piso_min = None, piso_max = None,
               dormitorios = None, banos = None, raw = Some raw', parse_ok = False\<rparr>))
      | Some g \<Rightarrow>
          let moneda' = group g ''moneda'' in
          try_bind (parse_money_to_float (Some (fmt moneda' @ [0x20] @ fmt (group g ''precio''))))
            (\<lambda>precio.
          try_bind (parse_float (group g ''area'')) (\<lambda>area.
          try_bind (int_if_set (group g ''piso_min'') None) (\<lambda>piso_min'.
          try_bind (int_if_set (group g ''piso_max'') piso_min') (\<lambda>piso_max'.
          try_bind (int_if_set (group g ''unidades'') None) (\<lambda>unidades.
          try_bind (int_if_set (group g ''dorms'') None) (\<lambda>dorms.
          try_bind (int_if_set (group g ''banos'') None) (\<lambda>banos'.
          Inr \<lparr>modelo = (case group g ''modelo'' of None \<Rightarrow> [] | Some c \<Rightarrow> c),
               area_m2 = area, precio_desde = precio, moneda = moneda',
               unidades_disponibles = unidades, piso_min = piso_min', piso_max = piso_max',
               dormitorios = dorms, banos = banos', raw = Some raw',
               parse_ok = True\<rparr>))))))))"

section \<open>Card extractor (nexo/extract.py)\<close>

text \<open>
  The HTML parser is a library. A parsed document is modelled by the answers of its
  queries: \<open>select\<close> and \<open>find_all\<close> return the matching elements in document
  order, \<open>select_one\<close> the first of them, \<open>get_text\<close> the text of the whole page
  (\<open>soup.get_text(" ", strip=True)\<close>); each may raise. An element is the list of its
  \<open>stripped_strings\<close>. \<open>BeautifulSoup(html, "html.parser")\<close> is a parameter
  \<open>bs\<close> of the functions that call it.
\<close>

type_synonym tag = "pystr list"

record soup =
  select_one :: "string \<Rightarrow> exn + tag option"
  select :: "string \<Rightarrow> exn + tag list"
  find_all :: "string list \<Rightarrow> exn + tag list"
  get_text :: "exn + pystr"

text \<open>\<open>sep.join(xs)\<close> and \<open>sub in s\<close>.\<close>

fun join :: "pystr \<Rightarrow> pystr list \<Rightarrow> pystr" where
  "join sep [] = []"
| "join sep [x] = x"
| "join sep (x # y # ys) = x @ sep @ join sep (y # ys)"

fun contains :: "pystr \<Rightarrow> pystr \<Rightarrow> bool" where
  "contains sub [] = (sub = [])"
| "contains sub (c # cs) = (take (length sub) (c # cs) = sub \<or> contains sub cs)"

definition selectors :: "string list" where
  "selectors =
     [''.modelo-card'', ''.model-card'',
      ''[data-testid='' @ [CHR 0x27] @ ''model-card'' @ [CHR 0x27] @ '']'',
      ''.card-modelo'', ''.card'']"

text \<open>The loop over the selectors: the first one with at least two elements wins.\<close>

fun first_cards :: "soup \<Rightarrow> string list \<Rightarrow> exn + pystr list option" where
  "first_cards sp [] = Inr None"
| "first_cards sp (sel # sels) =
     try_bind (select sp sel) (\<lambda>cards.
       if cards \<noteq> [] \<and> length cards \<ge> 2
       then Inr (Some (map (join [0x20]) cards))
       else first_cards sp sels)"

definition keep_block :: "pystr \<Rightarrow> bool" where
  "keep_block txt =
     (txt \<noteq> [] \<and> contains (str ''Modelo'') txt \<and> contains (str ''Desde'') txt \<and>
      (contains (str ''m'') txt \<or> contains (str ''m'' @ [0xB2]) txt
       \<or> contains (str ''m'' @ [0xC2, 0xB2]) txt))"

text \<open>The second loop: \<open>seen\<close> is the set of texts already put out.\<close>

fun dedupe :: "pystr list \<Rightarrow> pystr list \<Rightarrow> pystr list" where
  "dedupe seen [] = []"
| "dedupe seen (b # bs) =
     (if b \<in> set seen then dedupe seen bs else b # dedupe (b # seen) bs)"

definition extract_card_texts :: "(pystr \<Rightarrow> exn + soup) \<Rightarrow> pystr \<Rightarrow> exn + pystr list" where
  "extract_card_texts bs html' =
     try_bind (bs html') (\<lambda>sp.
     try_bind (first_cards sp selectors) (\<lambda>found.
       case found of
         Some texts \<Rightarrow> Inr texts
       | None \<Rightarrow>
           try_bind (find_all sp [''div'', ''section'', ''article'', ''li'']) (\<lambda>tags.
             Inr (dedupe [] (filter keep_block (map (join [0x20]) tags))))))"

section \<open>Project parser (nexo/parser.py, core/exceptions.py)\<close>


datatype error = FetchError pystr | ParseError pystr

record NexoParser =
  html :: pystr
  soup :: soup

definition NexoParser_init :: "(pystr \<Rightarrow> exn + soup) \<Rightarrow> pystr \<Rightarrow> exn + NexoParser" where
  "NexoParser_init bs h = try_bind (bs h) (\<lambda>sp. Inr \<lparr>html = h, soup = sp\<rparr>)"







section \<open>What the numeric parsers are specified to compute\<close>

text \<open>
  The specification's reading of the money parser: in the normalised text, the first
  digit and the longest run of digits, periods and commas after it; periods and commas
  dropped; the digits read as a whole number. No result for an absent or empty input
  and for a text without a digit.
\<close>

definition money_run :: "pystr \<Rightarrow> pystr option" where
  "money_run t =
     (case dropWhile (\<lambda>c. \<not> is_decimal c) t of
        [] \<Rightarrow> None
      | c # r \<Rightarrow> Some (c # takeWhile (\<lambda>x. is_decimal x \<or> x = 0x2E \<or> x = 0x2C) r))"

definition money_spec :: "pystr option \<Rightarrow> int option" where
  "money_spec text =
     (case text of
        None \<Rightarrow> None
      | Some s \<Rightarrow>
          if s = [] then None
          else map_option (\<lambda>run. digits_value (filter (\<lambda>c. c \<noteq> 0x2E \<and> c \<noteq> 0x2C) run))
                 (money_run (fix_mojibake (clean_text s))))"

text \<open>
  The specification's reading of the float parser: in the normalised text, the first
  run of digits, one period or comma if it follows, and the digits after that. The
  separator, comma or period, is the decimal point: the result is the number with the
  first digits as its whole part and the second as its decimals.
\<close>

definition float_run :: "pystr \<Rightarrow> (pystr \<times> pystr) option" where
  "float_run t =
     (case dropWhile (\<lambda>c. \<not> is_decimal c) t of
        [] \<Rightarrow> None
      | c # r \<Rightarrow>
          (case dropWhile is_decimal (c # r) of
             [] \<Rightarrow> Some (takeWhile is_decimal (c # r), [])
           | d # r' \<Rightarrow>
               if d = 0x2E \<or> d = 0x2C
               then Some (takeWhile is_decimal (c # r), takeWhile is_decimal r')
               else Some (takeWhile is_decimal (c # r), [])))"

definition float_spec :: "pystr option \<Rightarrow> rat option" where
  "float_spec text =
     (case text of
        None \<Rightarrow> None
      | Some s \<Rightarrow>
          if s = [] then None
          else map_option (\<lambda>(ip, fp). of_int (digits_value (ip @ fp)) / 10 ^ length fp)
                 (float_run (fix_mojibake (clean_text s))))"

section \<open>What a pattern can match\<close>

text \<open>
  \<open>sem ic r u g g'\<close>: the pattern \<open>r\<close> matches exactly the text \<open>u\<close> and turns the
  groups \<open>g\<close> into \<open>g'\<close>. Every match the backtracking matcher finds is one of these;
  the lemmas about the groups of \<open>CARD_RE\<close> rest on it.
\<close>

primrec sem :: "bool \<Rightarrow> re \<Rightarrow> pystr \<Rightarrow> groups \<Rightarrow> groups \<Rightarrow> bool" where
  "sem ic Eps u g g' = (u = [] \<and> g' = g)"
| "sem ic (In cs) u g g' = (\<exists>c. u = [c] \<and> in_set ic cs c \<and> g' = g)"
| "sem ic (Seq a b) u g g' =
     (\<exists>u1 u2 g1. u = u1 @ u2 \<and> sem ic a u1 g g1 \<and> sem ic b u2 g1 g')"
| "sem ic (Alt a b) u g g' = (sem ic a u g g' \<or> sem ic b u g g')"
| "sem ic (Opt a) u g g' = (sem ic a u g g' \<or> (u = [] \<and> g' = g))"
| "sem ic (MaxRep n cs) u g g' = (n \<le> length u \<and> list_all (in_set ic cs) u \<and> g' = g)"
| "sem ic (MinRep n cs) u g g' = (n \<le> length u \<and> list_all (in_set ic cs) u \<and> g' = g)"
| "sem ic (Grp n a) u g g' = (\<exists>g1. sem ic a u g g1 \<and> g' = (n, u) # g1)"

text \<open>
  \<open>grp_ok ic P r\<close>: every group \<open>n\<close> of \<open>r\<close> can only capture a text with \<open>P n\<close>.
  \<open>must_groups r\<close>: the groups that take part in every match of \<open>r\<close>.
\<close>

primrec grp_ok :: "bool \<Rightarrow> (string \<Rightarrow> pystr \<Rightarrow> bool) \<Rightarrow> re \<Rightarrow> bool" where
  "grp_ok ic P Eps = True"
| "grp_ok ic P (In cs) = True"
| "grp_ok ic P (Seq a b) = (grp_ok ic P a \<and> grp_ok ic P b)"
| "grp_ok ic P (Alt a b) = (grp_ok ic P a \<and> grp_ok ic P b)"
| "grp_ok ic P (Opt a) = grp_ok ic P a"
| "grp_ok ic P (MaxRep n cs) = True"
| "grp_ok ic P (MinRep n cs) = True"
| "grp_ok ic P (Grp n a) = ((\<forall>u g g'. sem ic a u g g' \<longrightarrow> P n u) \<and> grp_ok ic P a)"

primrec must_groups :: "re \<Rightarrow> string set" where
  "must_groups Eps = {}"
| "must_groups (In cs) = {}"
| "must_groups (Seq a b) = must_groups a \<union> must_groups b"
| "must_groups (Alt a b) = must_groups a \<inter> must_groups b"
| "must_groups (Opt a) = {}"
| "must_groups (MaxRep n cs) = {}"
| "must_groups (MinRep n cs) = {}"
| "must_groups (Grp n a) = insert n (must_groups a)"

text \<open>The shape of the text each number group of \<open>CARD_RE\<close> captures.\<close>

definition digit_groups :: "string list" where
  "digit_groups = [''unidades'', ''piso_min'', ''piso_max'', ''dorms'', ''banos'']"

definition card_group_shape :: "string \<Rightarrow> pystr \<Rightarrow> bool" where
  "card_group_shape n v = (n \<notin> set digit_groups \<or> (v \<noteq> [] \<and> list_all is_decimal v))"

text \<open>\<open>all_groups P g\<close>: every captured group of \<open>g\<close> has the property \<open>P\<close> of its name.\<close>

definition all_groups :: "(string \<Rightarrow> pystr \<Rightarrow> bool) \<Rightarrow> groups \<Rightarrow> bool" where
  "all_groups P g = list_all (\<lambda>(n, v). P n v) g"

text \<open>\<open>within_limit g\<close>: no number group of \<open>g\<close> has more digits than \<open>int\<close> converts.\<close>

definition within_limit :: "groups \<Rightarrow> bool" where
  "within_limit g =
     list_all (\<lambda>n. case group g n of None \<Rightarrow> True | Some v \<Rightarrow> length v \<le> int_max_str_digits)
       digit_groups"

text \<open>
  A necessary condition for a match of \<open>CARD_RE\<close>: somewhere after the first character
  of the text there is a digit, then white space, then the letter u of \<open>unidad\<close>.
  \<open>units_here\<close> tests it at the head of a text, \<open>has_units\<close> anywhere in it.
\<close>

fun units_here :: "pystr \<Rightarrow> bool" where
  "units_here (d # w # r) =
     (is_decimal d \<and> is_space w \<and>
      (case dropWhile is_space r of [] \<Rightarrow> False | x # r' \<Rightarrow> lit_match True 0x75 x))"
| "units_here r = False"

fun has_units :: "pystr \<Rightarrow> bool" where
  "has_units [] = False"
| "has_units (c # cs) = (units_here (c # cs) \<or> has_units cs)"

section \<open>Pages that the project parser converts\<close>



section \<open>Example inputs\<close>

text \<open>The two card texts of the specification's end-to-end examples.\<close>

definition card_AX01 :: pystr where
  "card_AX01 =
     str ''PlanoTorre N'' @ [0xE1] @
     str ''poles27 unidades disponiblesDesde S/ 327,550Modelo AX0157.04 m'' @ [0xB2] @
     str ''Pisos 2 al 282 dorms.2 ba'' @ [0xF1] @ str ''os''"

definition card_A209 :: pystr where
  "card_A209 =
     str ''1 unidad disponibleDesde S/ 271,441Modelo A-20944.63 m'' @ [0xB2] @
     str ''Piso 21 dorms.1 ba'' @ [0xF1] @ str ''o''"

text \<open>The texts \<open>t1\<close> and \<open>t2\<close> of tests/test_card_regex.py, mojibake included.\<close>

definition test_t1 :: pystr where
  "test_t1 =
     str ''PlanoTorre N'' @ [0xC3, 0xA1] @
     str ''poles27 unidades disponiblesDesdeS/ 327,550Modelo AX0157.04 m'' @ [0xC2, 0xB2] @
     str ''Pisos 2 al  282 dorms.2 ba'' @ [0xC3, 0xB1] @ str ''os''"

definition test_t2 :: pystr where
  "test_t2 =
     str ''PlanoTorre N'' @ [0xC3, 0xA1] @
     str ''poles1 unidad disponibleDesdeS/ 271,441Modelo A-20944.63 m'' @ [0xC2, 0xB2] @
     str ''Piso 21 dorms.1 ba'' @ [0xC3, 0xB1] @ str ''o''"


text \<open>A page whose only container element reads \<open>Modelo Desde m\<close>: no selector of the
  extractor has an element, and the page mentions no unit of area.\<close>

definition page_no_unit :: soup where
  "page_no_unit =
     \<lparr>select_one = (\<lambda>sel. Inr None), select = (\<lambda>sel. Inr []),
      find_all = (\<lambda>names. Inr [[str ''Modelo Desde m'']]),
      get_text = Inr (str ''Modelo Desde m'')\<rparr>"



text \<open>Correct text whose round trip fails: a-acute is no UTF-8 sequence by itself.\<close>

definition napoles :: pystr where
  "napoles = str ''N'' @ [0xE1] @ str ''poles''"

section \<open>Digits, white space and the conversions\<close>

lemma decimal_value_range:
  assumes "decimal_value c = Some v"
  shows "0 \<le> v \<and> v < 10 \<and> 0x30 \<le> c"
proof (cases "c < 0x80")
  case True
  with assms show ?thesis by (auto simp: decimal_value_def split: if_splits)
next
  case False
  with assms obtain z where z: "find (\<lambda>z. z \<le> c \<and> c < z + 10) decimal_zeros = Some z" and v: "v = c - z"
    by (auto simp: decimal_value_def split: option.splits)
  from z have "z \<le> c \<and> c < z + 10" by (auto simp: find_Some_iff)
  with v False show ?thesis by auto
qed

lemma is_decimal_bounds:
  assumes "is_decimal c" and "0x80 \<le> c"
  shows "0x660 \<le> c \<and> \<not> (0x109A \<le> c \<and> c < 0x17E0) \<and> \<not> (0x1C5A \<le> c \<and> c < 0xA620)"
proof -
  from assms obtain z where z: "find (\<lambda>z. z \<le> c \<and> c < z + 10) decimal_zeros = Some z"
    by (auto simp: is_decimal_def decimal_value_def split: option.splits if_splits)
  then have "z \<in> set decimal_zeros" and "z \<le> c \<and> c < z + 10"
    by (auto simp: find_Some_iff in_set_conv_nth)
  then show ?thesis using assms(2)
    unfolding decimal_zeros_def by auto
qed

lemma is_space_cases:
  "is_space c \<Longrightarrow> c \<le> 0xA0 \<or> c = 0x1680 \<or> (0x2000 \<le> c \<and> c \<le> 0x3000)"
  unfolding is_space_def by (elim disjE) simp_all

lemma decimal_not_space: "is_decimal c \<Longrightarrow> \<not> is_space c"
proof (cases "c < 0x80")
  case True
  assume "is_decimal c"
  with True have "0x30 \<le> c \<and> c \<le> 0x39"
    by (auto simp: is_decimal_def decimal_value_def split: if_splits)
  then show ?thesis by (auto simp: is_space_def)
next
  case False
  assume "is_decimal c"
  with False is_decimal_bounds[of c]
  have "0x660 \<le> c" and "\<not> (0x109A \<le> c \<and> c < 0x17E0)" and "\<not> (0x1C5A \<le> c \<and> c < 0xA620)"
    by simp_all
  then show ?thesis using is_space_cases[of c] by linarith
qed

lemma decimal_not_punct: "is_decimal c \<Longrightarrow> c \<noteq> 0x2D \<and> c \<noteq> 0x2B \<and> c \<noteq> 0x2E \<and> c \<noteq> 0x2C"
  using decimal_value_range[of c] by (auto simp: is_decimal_def)

lemma strip_no_space: "\<forall>c\<in>set d. \<not> is_space c \<Longrightarrow> strip d = d"
proof -
  assume a: "\<forall>c\<in>set d. \<not> is_space c"
  have keep: "dropWhile is_space xs = xs" if "\<forall>c\<in>set xs. \<not> is_space c" for xs
    using that by (cases xs) auto
  from a have "dropWhile is_space d = d" by (rule keep)
  moreover from a have "dropWhile is_space (rev d) = rev d" by (intro keep) simp
  ultimately show ?thesis by (simp add: strip_def)
qed

lemma digits_value_nonneg: "0 \<le> digits_value ds"
proof -
  have "0 \<le> a \<Longrightarrow> 0 \<le> foldl (\<lambda>acc d. 10 * acc + (case decimal_value d of None \<Rightarrow> 0 | Some v \<Rightarrow> v)) a ds" for a
  proof (induction ds arbitrary: a)
    case Nil then show ?case by simp
  next
    case (Cons d ds)
    have "0 \<le> (case decimal_value d of None \<Rightarrow> 0 | Some v \<Rightarrow> v)"
      using decimal_value_range[of d] by (auto split: option.splits)
    with Cons.prems have "0 \<le> 10 * a + (case decimal_value d of None \<Rightarrow> 0 | Some v \<Rightarrow> v)" by simp
    from Cons.IH[OF this] show ?case by simp
  qed
  then show ?thesis by (simp add: digits_value_def)
qed

lemma unsign_digit: "is_decimal c \<Longrightarrow> unsign (c # r) = (False, c # r)"
  using decimal_not_punct[of c] by (simp add: unsign_def)

lemma takeWhile_all: "list_all P xs \<Longrightarrow> takeWhile P xs = xs \<and> dropWhile P xs = []"
  by (induction xs) auto

lemma py_int_digits:
  assumes "d \<noteq> []" and "list_all is_decimal d"
  shows "py_int d =
     (if length d \<le> int_max_str_digits then Inr (digits_value d)
      else Inl (ValueError (exceeds_limit (length d))))"
proof -
  from assms(2) have "strip d = d"
    by (intro strip_no_space) (auto simp: list_all_iff dest: decimal_not_space)
  moreover from assms obtain c r where "d = c # r" and "is_decimal c"
    by (cases d) auto
  then have "unsign d = (False, d)" by (simp add: unsign_digit)
  moreover from takeWhile_all[OF assms(2)] have tw: "takeWhile is_decimal d = d" by simp
  ultimately show ?thesis using assms by (simp add: py_int_def Let_def tw)
qed

lemma py_float_digits:
  assumes "d \<noteq> []" and "list_all is_decimal d"
  shows "py_float d = Some (of_int (digits_value d))"
proof -
  from assms(2) have "strip d = d"
    by (intro strip_no_space) (auto simp: list_all_iff dest: decimal_not_space)
  moreover from assms obtain c r where "d = c # r" and "is_decimal c"
    by (cases d) auto
  then have "unsign d = (False, d)" by (simp add: unsign_digit)
  moreover have tw: "takeWhile is_decimal d = d" "dropWhile is_decimal d = []"
    using takeWhile_all[OF assms(2)] by simp_all
  ultimately show ?thesis using assms(1) by (simp add: py_float_def tw)
qed

lemma py_float_point:
  assumes "ip \<noteq> []" and "list_all is_decimal ip" and "list_all is_decimal fp"
  shows "py_float (ip @ 0x2E # fp) = Some (of_int (digits_value (ip @ fp)) / 10 ^ length fp)"
proof -
  have "\<not> is_space 0x2E" by (simp add: is_space_def)
  with assms have "strip (ip @ 0x2E # fp) = ip @ 0x2E # fp"
    by (intro strip_no_space) (auto simp: list_all_iff dest: decimal_not_space)
  moreover from assms obtain c r where "ip = c # r" and "is_decimal c"
    by (cases ip) auto
  then have "unsign (ip @ 0x2E # fp) = (False, ip @ 0x2E # fp)" by (simp add: unsign_digit)
  moreover have "\<not> is_decimal 0x2E" using decimal_not_punct[of "0x2E"] by auto
  with assms(2) have "takeWhile is_decimal (ip @ 0x2E # fp) = ip"
    and "dropWhile is_decimal (ip @ 0x2E # fp) = 0x2E # fp"
    by (simp_all add: takeWhile_append2 dropWhile_append2 list_all_iff)
  ultimately show ?thesis using assms by (simp add: py_float_def)
qed

section \<open>The matches of the two numeric patterns\<close>

lemma max_rep_total:
  assumes "\<And>s'. k s' \<noteq> None"
  shows "max_rep p n s k = (if n \<le> length (takeWhile p s) then k (dropWhile p s) else None)"
proof (induction s arbitrary: n)
  case Nil
  show ?case by simp
next
  case (Cons c cs)
  show ?case
  proof (cases "p c")
    case True
    show ?thesis
    proof (cases "n - 1 \<le> length (takeWhile p cs)")
      case le: True
      with assms[of "dropWhile p cs"] obtain r where "k (dropWhile p cs) = Some r" by auto
      with True le Cons.IH[of "n - 1"] show ?thesis by auto
    next
      case gt: False
      then have "n \<noteq> 0" and "\<not> n \<le> Suc (length (takeWhile p cs))" by auto
      with True gt Cons.IH[of "n - 1"] show ?thesis by simp
    qed
  next
    case False
    then show ?thesis by simp
  qed
qed

lemma take_prefix_run:
  "take (length (c # r) - length (dropWhile q r)) (c # r) = c # takeWhile q r"
proof -
  have "length (takeWhile q r) + length (dropWhile q r) = length r"
    by (metis length_append takeWhile_dropWhile_id)
  then have "length (c # r) - length (dropWhile q r) = Suc (length (takeWhile q r))" by simp
  moreover have "take (length (takeWhile q r)) r = takeWhile q r"
    by (metis append_eq_conv_conj takeWhile_dropWhile_id)
  ultimately show ?thesis by simp
qed

lemma in_set_simps:
  "in_set False [Digit] = is_decimal"
  "in_set False [Digit, Lit 0x2E, Lit 0x2C] = (\<lambda>c. is_decimal c \<or> c = 0x2E \<or> c = 0x2C)"
  "in_set False [Lit 0x2E, Lit 0x2C] = (\<lambda>c. c = 0x2E \<or> c = 0x2C)"
  by (auto simp: in_set_def lit_match_def fun_eq_iff)

lemma rmatch_money:
  "rmatch False money_re (c # r) [] (\<lambda>s' g. Some g) =
     (if is_decimal c
      then Some [(''1'', c # takeWhile (\<lambda>x. is_decimal x \<or> x = 0x2E \<or> x = 0x2C) r)]
      else None)"
  by (simp add: money_re_def in_set_simps max_rep_total take_prefix_run del: length_Cons list.size)

lemma search_money: "search False money_re t = map_option (\<lambda>run. [(''1'', run)]) (money_run t)"
proof (induction t)
  case Nil
  show ?case by (simp add: money_re_def money_run_def)
next
  case (Cons c cs)
  show ?case
  proof (cases "is_decimal c")
    case True
    then show ?thesis by (simp add: rmatch_money money_run_def)
  next
    case False
    with Cons.IH show ?thesis by (simp add: rmatch_money money_run_def)
  qed
qed

lemma take_consumed: "s = a @ b \<Longrightarrow> take (length s - length b) s = a"
  by simp

lemma rmatch_float:
  "rmatch False float_re s [] (\<lambda>s' g. Some g) =
     (if takeWhile is_decimal s = [] then None
      else (case dropWhile is_decimal s of
              [] \<Rightarrow> Some [(''1'', takeWhile is_decimal s)]
            | d # r' \<Rightarrow>
                if d = 0x2E \<or> d = 0x2C
                then Some [(''1'', takeWhile is_decimal s @ d # takeWhile is_decimal r')]
                else Some [(''1'', takeWhile is_decimal s)]))"
proof -
  define K :: "pystr \<Rightarrow> groups option"
    where "K = (\<lambda>s'. Some [(''1'', take (length s - length s') s)])"
  define k1 where "k1 = (\<lambda>s1.
     rmatch False (Seq (Opt (In [Lit 0x2E, Lit 0x2C])) (Seq (MaxRep 0 [Digit]) Eps)) s1 []
       (\<lambda>s' g'. Some ((''1'', take (length s - length s') s) # g')))"
  have unfold: "rmatch False float_re s [] (\<lambda>s' g. Some g) = max_rep is_decimal 1 s k1"
    unfolding k1_def float_re_def seq_def by (simp add: in_set_simps)
  have k1: "k1 s1 = (case s1 of [] \<Rightarrow> K []
                     | d # r' \<Rightarrow> if d = 0x2E \<or> d = 0x2C then K (dropWhile is_decimal r')
                                else K (dropWhile is_decimal (d # r')))" for s1
    by (cases s1) (simp_all add: k1_def K_def in_set_simps max_rep_total)
  have total: "k1 s1 \<noteq> None" for s1
    by (cases s1) (simp_all add: k1 K_def)
  have split: "s = takeWhile is_decimal s @ dropWhile is_decimal s" by simp
  show ?thesis
  proof (cases "takeWhile is_decimal s = []")
    case True
    then show ?thesis unfolding unfold by (subst max_rep_total[OF total]) simp
  next
    case False
    then have le: "1 \<le> length (takeWhile is_decimal s)" by (cases "takeWhile is_decimal s") auto
    have m: "max_rep is_decimal 1 s k1 = k1 (dropWhile is_decimal s)"
      by (subst max_rep_total[OF total]) (use le in simp)
    show ?thesis
    proof (cases "dropWhile is_decimal s")
      case Nil
      have "takeWhile is_decimal s @ [] = s" unfolding Nil[symmetric] by (rule takeWhile_dropWhile_id)
      then have "s = takeWhile is_decimal s" by (simp only: append_Nil2)
      then have "K [] = Some [(''1'', takeWhile is_decimal s)]" by (simp add: K_def)
      with False show ?thesis unfolding unfold m k1 Nil by simp
    next
      case (Cons d r')
      have nd: "\<not> is_decimal d" using Cons by (metis dropWhile_eq_Cons_conv)
      show ?thesis
      proof (cases "d = 0x2E \<or> d = 0x2C")
        case sep: True
        have "s = (takeWhile is_decimal s @ d # takeWhile is_decimal r') @ dropWhile is_decimal r'"
          using split Cons by simp
        from take_consumed[OF this]
        have "K (dropWhile is_decimal r') = Some [(''1'', takeWhile is_decimal s @ d # takeWhile is_decimal r')]"
          by (simp add: K_def)
        with False sep show ?thesis unfolding unfold m k1 Cons by simp
      next
        case nosep: False
        have "s = takeWhile is_decimal s @ (d # r')" using split Cons by simp
        from take_consumed[OF this]
        have "K (d # r') = Some [(''1'', takeWhile is_decimal s)]" by (simp add: K_def)
        with False nosep nd show ?thesis unfolding unfold m k1 Cons by simp
      qed
    qed
  qed
qed

lemma search_float:
  "search False float_re t =
     (case dropWhile (\<lambda>c. \<not> is_decimal c) t of
        [] \<Rightarrow> None
      | c # r \<Rightarrow>
          (case dropWhile is_decimal (c # r) of
             [] \<Rightarrow> Some [(''1'', takeWhile is_decimal (c # r))]
           | d # r' \<Rightarrow>
               if d = 0x2E \<or> d = 0x2C
               then Some [(''1'', takeWhile is_decimal (c # r) @ d # takeWhile is_decimal r')]
               else Some [(''1'', takeWhile is_decimal (c # r))]))"
proof (induction t)
  case Nil
  show ?case by (simp add: rmatch_float)
next
  case (Cons c cs)
  show ?case
  proof (cases "is_decimal c")
    case True
    then show ?thesis by (simp add: rmatch_float split: list.splits)
  next
    case False
    with Cons.IH show ?thesis by (simp add: rmatch_float)
  qed
qed

lemma replace_delete: "replace x [] s = filter (\<lambda>c. c \<noteq> x) s"
  by (induction s) (simp_all add: replace_def)

lemma replace_absent: "x \<notin> set s \<Longrightarrow> replace x new s = s"
  by (induction s) (auto simp: replace_def)

lemma replace_at: "x \<notin> set a \<Longrightarrow> x \<notin> set b \<Longrightarrow> replace x new (a @ x # b) = a @ new @ b"
  using replace_absent[of x a new] replace_absent[of x b new] by (simp add: replace_def)

section \<open>The mojibake repair\<close>

text \<open>
  C6. \<open>fix_mojibake\<close> is a total function: its \<open>except\<close> clause catches the failure of
  either step of the round trip, so no input makes it raise. When the round trip fails
  (the text does not encode as Latin-1, or the bytes are no UTF-8) the input comes back
  unchanged, hence applying the repair to such a text, once or twice, is the identity.
\<close>

theorem fix_mojibake_failed_round_trip:
  "round_trip s = None \<Longrightarrow> fix_mojibake s = s \<and> fix_mojibake (fix_mojibake s) = s"
  by (simp add: fix_mojibake_def)

theorem fix_mojibake_failed_round_trip_witness:
  "round_trip napoles = None \<and> fix_mojibake napoles = napoles
   \<and> fix_mojibake (fix_mojibake napoles) = napoles"
proof -
  have h: "round_trip napoles = None" by code_simp
  from fix_mojibake_failed_round_trip[OF h] h show ?thesis by simp
qed

section \<open>The numeric parsers against their specification\<close>

lemma money_run_shape:
  assumes "money_run t = Some run"
  shows "\<exists>c r. run = c # r \<and> is_decimal c \<and> list_all (\<lambda>x. is_decimal x \<or> x = 0x2E \<or> x = 0x2C) r"
proof -
  from assms obtain c r where d: "dropWhile (\<lambda>c. \<not> is_decimal c) t = c # r"
    and run: "run = c # takeWhile (\<lambda>x. is_decimal x \<or> x = 0x2E \<or> x = 0x2C) r"
    by (auto simp: money_run_def split: list.splits)
  from d have "is_decimal c" by (metis (mono_tags, lifting) dropWhile_eq_Cons_conv)
  moreover have "list_all (\<lambda>x. is_decimal x \<or> x = 0x2E \<or> x = 0x2C)
                   (takeWhile (\<lambda>x. is_decimal x \<or> x = 0x2E \<or> x = 0x2C) r)"
    by (auto simp: list_all_iff dest: set_takeWhileD)
  ultimately show ?thesis using run by blast
qed

lemma money_digits:
  assumes "is_decimal c" and "list_all (\<lambda>x. is_decimal x \<or> x = 0x2E \<or> x = 0x2C) r"
  shows "py_float (replace 0x2C [] (replace 0x2E [] (c # r)))
         = Some (of_int (digits_value (filter (\<lambda>x. x \<noteq> 0x2E \<and> x \<noteq> 0x2C) (c # r))))"
proof -
  let ?ds = "filter (\<lambda>x. x \<noteq> 0x2E \<and> x \<noteq> 0x2C) (c # r)"
  have eq: "replace 0x2C [] (replace 0x2E [] (c # r)) = ?ds"
    by (simp only: replace_delete filter_filter)
  from assms(1) decimal_not_punct[of c] have "?ds \<noteq> []" by simp
  moreover from assms have "list_all is_decimal ?ds" by (auto simp: list_all_iff)
  ultimately show ?thesis unfolding eq by (rule py_float_digits)
qed

lemma parse_money_value:
  "parse_money_to_float text = Inr (map_option of_int (money_spec text))"
proof (cases "text")
  case None
  then show ?thesis by (simp add: parse_money_to_float_def money_spec_def)
next
  case (Some s)
  show ?thesis
  proof (cases "s = []")
    case True
    with Some show ?thesis by (simp add: parse_money_to_float_def money_spec_def)
  next
    case False
    show ?thesis
    proof (cases "money_run (fix_mojibake (clean_text s))")
      case None
      with Some False show ?thesis
        by (simp add: parse_money_to_float_def money_spec_def search_money)
    next
      case run: (Some run)
      from money_run_shape[OF run] obtain c r where "run = c # r" and "is_decimal c"
        and "list_all (\<lambda>x. is_decimal x \<or> x = 0x2E \<or> x = 0x2C) r" by blast
      with money_digits[of c r] Some False run show ?thesis
        by (simp add: parse_money_to_float_def money_spec_def search_money group_def)
    qed
  qed
qed

lemma digits_no_punct: "list_all is_decimal ds \<Longrightarrow> 0x2C \<notin> set ds \<and> 0x2E \<notin> set ds"
  using decimal_not_punct by (auto simp: list_all_iff)

lemma float_text_value:
  assumes "ip \<noteq> []" and "list_all is_decimal ip" and "list_all is_decimal fp"
  shows "py_float (if 0x2C \<in> set ip \<and> 0x2E \<notin> set ip then replace 0x2C [0x2E] ip
                   else replace 0x2C [] ip) = Some (of_int (digits_value (ip @ [])) / 10 ^ length ([]::pystr))"
    and "d = 0x2E \<or> d = 0x2C \<Longrightarrow>
         py_float (if 0x2C \<in> set (ip @ d # fp) \<and> 0x2E \<notin> set (ip @ d # fp)
                   then replace 0x2C [0x2E] (ip @ d # fp)
                   else replace 0x2C [] (ip @ d # fp))
         = Some (of_int (digits_value (ip @ fp)) / 10 ^ length fp)"
proof -
  note np = digits_no_punct[OF assms(2)] digits_no_punct[OF assms(3)]
  from np show "py_float (if 0x2C \<in> set ip \<and> 0x2E \<notin> set ip then replace 0x2C [0x2E] ip
                   else replace 0x2C [] ip) = Some (of_int (digits_value (ip @ [])) / 10 ^ length ([]::pystr))"
    using py_float_digits[OF assms(1,2)] by (simp add: replace_absent)
  assume "d = 0x2E \<or> d = 0x2C"
  then show "py_float (if 0x2C \<in> set (ip @ d # fp) \<and> 0x2E \<notin> set (ip @ d # fp)
                   then replace 0x2C [0x2E] (ip @ d # fp)
                   else replace 0x2C [] (ip @ d # fp))
         = Some (of_int (digits_value (ip @ fp)) / 10 ^ length fp)"
  proof
    assume d: "d = 0x2E"
    from np have "0x2C \<notin> set (ip @ 0x2E # fp)" by simp
    then have "replace 0x2C [] (ip @ d # fp) = ip @ 0x2E # fp"
      unfolding d by (rule replace_absent)
    with d np py_float_point[OF assms] show ?thesis by simp
  next
    assume d: "d = 0x2C"
    from np have "0x2C \<notin> set ip" and "0x2C \<notin> set fp" by simp_all
    then have "replace 0x2C [0x2E] (ip @ d # fp) = ip @ [0x2E] @ fp"
      unfolding d by (rule replace_at)
    with d np py_float_point[OF assms] show ?thesis by simp
  qed
qed

lemma float_of_search:
  "(case search False float_re t of
      None \<Rightarrow> Inr None
    | Some m \<Rightarrow>
        (case group m ''1'' of
           None \<Rightarrow> Inl AttributeError
         | Some rw \<Rightarrow>
             Inr (py_float
                    (if 0x2C \<in> set rw \<and> 0x2E \<notin> set rw
                     then replace 0x2C [0x2E] rw
                     else replace 0x2C [] rw))))
   = Inr (map_option (\<lambda>(ip, fp). of_int (digits_value (ip @ fp)) / 10 ^ length fp)
            (float_run t))"
proof (cases "dropWhile (\<lambda>c. \<not> is_decimal c) t")
  case Nil
  show ?thesis by (simp add: search_float float_run_def Nil)
next
  case (Cons c r)
  then have c: "is_decimal c" by (metis (mono_tags, lifting) dropWhile_eq_Cons_conv)
  let ?ip = "takeWhile is_decimal (c # r)"
  have ip: "?ip \<noteq> []" "list_all is_decimal ?ip"
    using c by (auto simp: list_all_iff dest: set_takeWhileD)
  have e: "list_all is_decimal ([]::pystr)" by simp
  show ?thesis
  proof (cases "dropWhile is_decimal (c # r)")
    case n: Nil
    show ?thesis using float_text_value(1)[OF ip e]
      by (simp add: search_float float_run_def Cons n group_def
               del: dropWhile.simps takeWhile.simps)
  next
    case dr: (Cons d r')
    let ?fp = "takeWhile is_decimal r'"
    have fp: "list_all is_decimal ?fp" by (auto simp: list_all_iff dest: set_takeWhileD)
    show ?thesis
    proof (cases "d = 0x2E \<or> d = 0x2C")
      case True
      show ?thesis using float_text_value(2)[OF ip fp True] True
        by (simp add: search_float float_run_def Cons dr group_def
                 del: dropWhile.simps takeWhile.simps)
    next
      case nosep: False
      show ?thesis using float_text_value(1)[OF ip e] nosep
        by (simp add: search_float float_run_def Cons dr group_def
                 del: dropWhile.simps takeWhile.simps)
    qed
  qed
qed

lemma parse_float_value: "parse_float text = Inr (float_spec text)"
proof (cases "text")
  case None
  then show ?thesis by (simp add: parse_float_def float_spec_def)
next
  case (Some s)
  then show ?thesis
    by (simp add: parse_float_def float_spec_def float_of_search)
qed

lemma money_spec_nonneg: "money_spec text = Some n \<Longrightarrow> 0 \<le> n"
  by (auto simp: money_spec_def digits_value_nonneg split: option.splits if_splits)

lemma float_spec_nonneg: "float_spec text = Some v \<Longrightarrow> 0 \<le> v"
  by (auto simp: float_spec_def digits_value_nonneg split: option.splits if_splits)

lemma parse_money_nonneg: "parse_money_to_float x = Inr (Some v) \<Longrightarrow> 0 \<le> v"
proof -
  assume "parse_money_to_float x = Inr (Some v)"
  then obtain n where "money_spec x = Some n" and "v = of_int n"
    by (auto simp: parse_money_value)
  with money_spec_nonneg[of x n] show "0 \<le> v" by simp
qed

lemma parse_float_nonneg: "parse_float x = Inr (Some v) \<Longrightarrow> 0 \<le> v"
  by (simp add: parse_float_value float_spec_nonneg)

lemma card_numbers_nonneg:
  assumes "parse_card_text c = Inr t"
  shows "(area_m2 t = Some a \<longrightarrow> 0 \<le> a) \<and> (precio_desde t = Some p \<longrightarrow> 0 \<le> p)"
  using assms
  by (auto simp: parse_card_text_def Let_def try_bind_def
           split: option.splits sum.splits dest: parse_float_nonneg parse_money_nonneg)

lemma minus_card: "parse_card_text (str ''-5.2'') =
  Inr \<lparr>modelo = [], area_m2 = Some (52 / 10), precio_desde = Some 52, moneda = None,
       unidades_disponibles = None, piso_min = None, piso_max = None,
       dormitorios = None, banos = None, raw = Some (str ''-5.2''), parse_ok = False\<rparr>"
  by code_simp

text \<open>
  C4. For every input \<open>parse_money_to_float\<close> returns without raising, and its result
  is the one specified: none for an absent or empty input and for a normalised text
  without a digit; otherwise the whole number written by the digits of the first run
  of a digit followed by digits, periods and commas, all periods and commas dropped.
  In particular \<open>"Desde S/ 327,550"\<close> gives 327550.
\<close>

theorem parse_money_to_float_spec:
  "parse_money_to_float s = Inr (map_option of_int (money_spec s)) \<and>
   parse_money_to_float (Some (str ''Desde S/ 327,550'')) = Inr (Some 327550)"
proof
  show "parse_money_to_float s = Inr (map_option of_int (money_spec s))"
    by (rule parse_money_value)
  show "parse_money_to_float (Some (str ''Desde S/ 327,550'')) = Inr (Some 327550)"
    by code_simp
qed

text \<open>
  C5. For every input \<open>parse_float\<close> returns without raising, and its result is the one
  specified: none for an absent or empty input and for a normalised text without a
  digit; otherwise the number whose whole part is the first run of digits and whose
  decimals are the digits after one period or comma, if one follows. A comma (in a run
  that then has no period) counts as the decimal point; a run without a comma has
  nothing to strip and keeps its period. In particular \<open>"57.04 m\<^sup>2"\<close> gives 57.04 and
  \<open>"44,63 m\<^sup>2"\<close> gives 44.63.
\<close>

theorem parse_float_spec:
  "parse_float s = Inr (float_spec s) \<and>
   parse_float (Some (str ''57.04 m'' @ [0xB2])) = Inr (Some (5704 / 100)) \<and>
   parse_float (Some (str ''44,63 m'' @ [0xB2])) = Inr (Some (4463 / 100))"
proof (intro conjI)
  show "parse_float s = Inr (float_spec s)"
    by (rule parse_float_value)
  show "parse_float (Some (str ''57.04 m'' @ [0xB2])) = Inr (Some (5704 / 100))"
    by code_simp
  show "parse_float (Some (str ''44,63 m'' @ [0xB2])) = Inr (Some (4463 / 100))"
    by code_simp
qed

text \<open>
  C10. Whatever the input, a value returned by \<open>parse_money_to_float\<close> or by
  \<open>parse_float\<close> is not negative: the patterns start at a digit, so a minus sign before
  it never reaches \<open>float\<close> (\<open>"-5.2"\<close> parses as 5.2). Hence the area and the price of
  every record that \<open>parse_card_text\<close> returns are not negative when set.
\<close>

theorem parsed_numbers_nonneg:
  "(parse_money_to_float s = Inr (Some v) \<longrightarrow> 0 \<le> v) \<and>
   (parse_float s = Inr (Some w) \<longrightarrow> 0 \<le> w) \<and>
   parse_float (Some (str ''-5.2'')) = Inr (Some (52 / 10)) \<and>
   (parse_card_text ctext = Inr t \<longrightarrow>
      (area_m2 t = Some a \<longrightarrow> 0 \<le> a) \<and> (precio_desde t = Some p \<longrightarrow> 0 \<le> p))"
proof (intro conjI impI)
  show "parse_float (Some (str ''-5.2'')) = Inr (Some (52 / 10))" by code_simp
next
  assume h: "parse_card_text ctext = Inr t" and "area_m2 t = Some a"
  with card_numbers_nonneg[OF h] show "0 \<le> a" by blast
next
  assume h: "parse_card_text ctext = Inr t" and "precio_desde t = Some p"
  with card_numbers_nonneg[OF h] show "0 \<le> p" by blast
qed (rule parse_money_nonneg parse_float_nonneg, assumption)+

theorem parsed_numbers_nonneg_witness:
  "parse_money_to_float (Some (str ''-5.2'')) = Inr (Some 52) \<and> (0::rat) \<le> 52 \<and>
   parse_float (Some (str ''-5.2'')) = Inr (Some (52 / 10)) \<and> (0::rat) \<le> 52 / 10 \<and>
   parse_card_text (str ''-5.2'') =
     Inr \<lparr>modelo = [], area_m2 = Some (52 / 10), precio_desde = Some 52, moneda = None,
          unidades_disponibles = None, piso_min = None, piso_max = None,
          dormitorios = None, banos = None, raw = Some (str ''-5.2''), parse_ok = False\<rparr>"
proof -
  have m: "parse_money_to_float (Some (str ''-5.2'')) = Inr (Some 52)" by code_simp
  have f: "parse_float (Some (str ''-5.2'')) = Inr (Some (52 / 10))" by code_simp
  note c = minus_card
  from parsed_numbers_nonneg[where s = "Some (str ''-5.2'')" and v = 52 and w = "52 / 10"
      and ctext = "str ''-5.2''" and a = "52 / 10" and p = 52
      and t = "\<lparr>modelo = [], area_m2 = Some (52 / 10), precio_desde = Some 52, moneda = None,
          unidades_disponibles = None, piso_min = None, piso_max = None,
          dormitorios = None, banos = None, raw = Some (str ''-5.2''), parse_ok = False\<rparr>"]
    m f c
  show ?thesis by simp
qed

section \<open>Soundness of the matcher, and the groups of \<open>CARD_RE\<close>\<close>

lemma max_rep_sound:
  "max_rep p n s k = Some res \<Longrightarrow>
     \<exists>u s'. s = u @ s' \<and> n \<le> length u \<and> list_all p u \<and> k s' = Some res"
proof (induction s arbitrary: n)
  case Nil
  then show ?case by (auto split: if_splits)
next
  case (Cons c cs)
  show ?case
  proof (cases "p c")
    case True
    show ?thesis
    proof (cases "max_rep p (n - 1) cs k")
      case None
      with Cons.prems True have "n = 0" and "k (c # cs) = Some res" by (auto split: if_splits)
      then have "c # cs = [] @ (c # cs) \<and> n \<le> length ([]::pystr) \<and> list_all p [] \<and> k (c # cs) = Some res"
        by simp
      then show ?thesis by blast
    next
      case (Some r)
      with Cons.prems True have "max_rep p (n - 1) cs k = Some res" by simp
      from Cons.IH[OF this] obtain u s' where "cs = u @ s'" "n - 1 \<le> length u" "list_all p u"
        "k s' = Some res" by blast
      with True have "c # cs = (c # u) @ s' \<and> n \<le> length (c # u) \<and> list_all p (c # u) \<and> k s' = Some res"
        by auto
      then show ?thesis by blast
    qed
  next
    case False
    with Cons.prems have "n = 0" and "k (c # cs) = Some res" by (auto split: if_splits)
    then have "c # cs = [] @ (c # cs) \<and> n \<le> length ([]::pystr) \<and> list_all p [] \<and> k (c # cs) = Some res"
      by simp
    then show ?thesis by blast
  qed
qed

lemma min_rep_sound:
  "min_rep p n s k = Some res \<Longrightarrow>
     \<exists>u s'. s = u @ s' \<and> n \<le> length u \<and> list_all p u \<and> k s' = Some res"
proof (induction s arbitrary: n)
  case Nil
  then show ?case by (auto split: if_splits)
next
  case (Cons c cs)
  show ?case
  proof (cases "n = 0 \<and> k (c # cs) \<noteq> None")
    case True
    with Cons.prems have "k (c # cs) = Some res" by auto
    with True have "c # cs = [] @ (c # cs) \<and> n \<le> length ([]::pystr) \<and> list_all p [] \<and> k (c # cs) = Some res"
      by simp
    then show ?thesis by blast
  next
    case False
    with Cons.prems have pc: "p c" and rec: "min_rep p (n - 1) cs k = Some res"
      by (auto split: if_splits option.splits)
    from Cons.IH[OF rec] obtain u s' where "cs = u @ s'" "n - 1 \<le> length u" "list_all p u"
      "k s' = Some res" by blast
    with pc have "c # cs = (c # u) @ s' \<and> n \<le> length (c # u) \<and> list_all p (c # u) \<and> k s' = Some res"
      by auto
    then show ?thesis by blast
  qed
qed

lemma rmatch_sound:
  "rmatch ic r s g k = Some res \<Longrightarrow>
     \<exists>u s' g'. s = u @ s' \<and> sem ic r u g g' \<and> k s' g' = Some res"
proof (induction r arbitrary: s g k)
  case Eps
  then show ?case by auto
next
  case (In cs)
  then obtain c r' where s: "s = c # r'" and c: "in_set ic cs c" and k: "k r' g = Some res"
    by (cases s) (auto split: if_splits)
  then have "s = [c] @ r' \<and> sem ic (In cs) [c] g g \<and> k r' g = Some res" by simp
  then show ?case by blast
next
  case (Seq a b)
  from Seq.prems have "rmatch ic a s g (\<lambda>s' g'. rmatch ic b s' g' k) = Some res" by simp
  from Seq.IH(1)[OF this] obtain u1 s1 g1 where 1: "s = u1 @ s1" "sem ic a u1 g g1"
    and "rmatch ic b s1 g1 k = Some res" by blast
  from Seq.IH(2)[OF this(3)] obtain u2 s' g' where 2: "s1 = u2 @ s'" "sem ic b u2 g1 g'"
    "k s' g' = Some res" by blast
  from 1 2 have "s = (u1 @ u2) @ s' \<and> sem ic (Seq a b) (u1 @ u2) g g' \<and> k s' g' = Some res"
    by auto
  then show ?case by blast
next
  case (Alt a b)
  from Alt.prems have "rmatch ic a s g k = Some res \<or> rmatch ic b s g k = Some res"
    by (auto split: option.splits)
  then show ?case
  proof
    assume "rmatch ic a s g k = Some res"
    from Alt.IH(1)[OF this] obtain u s' g' where "s = u @ s'" "sem ic a u g g'"
      "k s' g' = Some res" by blast
    then have "s = u @ s' \<and> sem ic (Alt a b) u g g' \<and> k s' g' = Some res" by simp
    then show ?thesis by blast
  next
    assume "rmatch ic b s g k = Some res"
    from Alt.IH(2)[OF this] obtain u s' g' where "s = u @ s'" "sem ic b u g g'"
      "k s' g' = Some res" by blast
    then have "s = u @ s' \<and> sem ic (Alt a b) u g g' \<and> k s' g' = Some res" by simp
    then show ?thesis by blast
  qed
next
  case (Opt a)
  from Opt.prems have "rmatch ic a s g k = Some res \<or> k s g = Some res"
    by (auto split: option.splits)
  then show ?case
  proof
    assume "rmatch ic a s g k = Some res"
    from Opt.IH[OF this] obtain u s' g' where "s = u @ s'" "sem ic a u g g'"
      "k s' g' = Some res" by blast
    then have "s = u @ s' \<and> sem ic (Opt a) u g g' \<and> k s' g' = Some res" by simp
    then show ?thesis by blast
  next
    assume "k s g = Some res"
    then have "s = [] @ s \<and> sem ic (Opt a) [] g g \<and> k s g = Some res" by simp
    then show ?thesis by blast
  qed
next
  case (MaxRep n cs)
  from MaxRep.prems have "max_rep (in_set ic cs) n s (\<lambda>s'. k s' g) = Some res" by simp
  from max_rep_sound[OF this] obtain u s' where "s = u @ s'" "n \<le> length u"
    "list_all (in_set ic cs) u" "k s' g = Some res" by blast
  then have "s = u @ s' \<and> sem ic (MaxRep n cs) u g g \<and> k s' g = Some res" by simp
  then show ?case by blast
next
  case (MinRep n cs)
  from MinRep.prems have "min_rep (in_set ic cs) n s (\<lambda>s'. k s' g) = Some res" by simp
  from min_rep_sound[OF this] obtain u s' where "s = u @ s'" "n \<le> length u"
    "list_all (in_set ic cs) u" "k s' g = Some res" by blast
  then have "s = u @ s' \<and> sem ic (MinRep n cs) u g g \<and> k s' g = Some res" by simp
  then show ?case by blast
next
  case (Grp n a)
  from Grp.prems
  have "rmatch ic a s g (\<lambda>s' g'. k s' ((n, take (length s - length s') s) # g')) = Some res"
    by simp
  from Grp.IH[OF this] obtain u s' g1 where "s = u @ s'" "sem ic a u g g1"
    "k s' ((n, take (length s - length s') s) # g1) = Some res" by blast
  then have "s = u @ s' \<and> sem ic (Grp n a) u g ((n, u) # g1) \<and> k s' ((n, u) # g1) = Some res"
    by auto
  then show ?case by blast
qed

lemma search_sound: "search ic r t = Some g \<Longrightarrow> \<exists>u. sem ic r u [] g"
proof (induction t)
  case Nil
  then have "rmatch ic r [] [] (\<lambda>s' g. Some g) = Some g" by simp
  from rmatch_sound[OF this] show ?case by auto
next
  case (Cons c cs)
  show ?case
  proof (cases "rmatch ic r (c # cs) [] (\<lambda>s' g. Some g)")
    case None
    with Cons show ?thesis by simp
  next
    case (Some g0)
    with Cons.prems have "rmatch ic r (c # cs) [] (\<lambda>s' g. Some g) = Some g" by simp
    from rmatch_sound[OF this] show ?thesis by auto
  qed
qed

lemma sem_groups:
  "sem ic r u g g' \<Longrightarrow> grp_ok ic P r \<Longrightarrow> all_groups P g \<Longrightarrow> all_groups P g'"
proof (induction r arbitrary: u g g')
  case (Seq a b)
  from Seq.prems(1) obtain u1 u2 g1 where "sem ic a u1 g g1" and b: "sem ic b u2 g1 g'"
    by auto
  with Seq.IH(1) Seq.prems have "all_groups P g1" by simp
  with Seq.IH(2)[OF b] Seq.prems show ?case by simp
next
  case (Alt a b)
  from Alt.prems(1) have "sem ic a u g g' \<or> sem ic b u g g'" by simp
  with Alt.IH Alt.prems show ?case by auto
next
  case (Opt a)
  from Opt.prems(1) have "sem ic a u g g' \<or> g' = g" by auto
  with Opt.IH Opt.prems show ?case by auto
next
  case (Grp n a)
  from Grp.prems(1) obtain g1 where a: "sem ic a u g g1" and g': "g' = (n, u) # g1" by auto
  from Grp.prems(2) a have "P n u" by auto
  moreover from Grp.IH[OF a] Grp.prems have "all_groups P g1" by simp
  ultimately show ?case unfolding g' by (simp add: all_groups_def)
qed auto

lemma sem_must: "sem ic r u g g' \<Longrightarrow> fst ` set g \<union> must_groups r \<subseteq> fst ` set g'"
proof (induction r arbitrary: u g g')
  case (Seq a b)
  from Seq.prems obtain u1 u2 g1 where a: "sem ic a u1 g g1" and b: "sem ic b u2 g1 g'"
    by auto
  from Seq.IH(1)[OF a] Seq.IH(2)[OF b] show ?case by (simp only: must_groups.simps) blast
next
  case (Alt a b)
  from Alt.prems have "sem ic a u g g' \<or> sem ic b u g g'" by simp
  then show ?case
  proof
    assume "sem ic a u g g'"
    from Alt.IH(1)[OF this] show ?thesis by (simp only: must_groups.simps) blast
  next
    assume "sem ic b u g g'"
    from Alt.IH(2)[OF this] show ?thesis by (simp only: must_groups.simps) blast
  qed
next
  case (Opt a)
  from Opt.prems have "sem ic a u g g' \<or> g' = g" by auto
  then show ?case
  proof
    assume "sem ic a u g g'"
    from Opt.IH[OF this] show ?thesis by (simp only: must_groups.simps) blast
  next
    assume "g' = g"
    then show ?thesis by simp
  qed
next
  case (Grp n a)
  from Grp.prems obtain g1 where a: "sem ic a u g g1" and g': "g' = (n, u) # g1" by auto
  from Grp.IH[OF a] show ?case unfolding g' by (simp only: must_groups.simps list.set image_insert fst_conv) blast
qed auto

lemma word_grp_ok: "grp_ok ic P (word w)"
  by (induction w) (simp_all add: word_def seq_def)

lemma word_must: "must_groups (word w) = {}"
  by (induction w) (simp_all add: word_def seq_def)

lemma digit_group_sem:
  "sem True (MaxRep 1 [Digit]) u g g' \<Longrightarrow> u \<noteq> [] \<and> list_all is_decimal u"
  by (auto simp: in_set_def list_all_iff)

lemma card_grp_ok: "grp_ok True card_group_shape CARD_RE"
  unfolding CARD_RE_def seq_def
  by (auto simp: word_grp_ok card_group_shape_def digit_groups_def in_set_def list_all_iff
           simp del: sem.simps(3,4,5))

lemma card_must:
  "{''unidades'', ''piso_min'', ''dorms'', ''banos''} \<subseteq> must_groups CARD_RE"
  unfolding CARD_RE_def seq_def by (simp add: word_must)

lemma card_groups:
  assumes "search True CARD_RE t = Some g"
  shows "all_groups card_group_shape g"
    and "n \<in> {''unidades'', ''piso_min'', ''dorms'', ''banos''} \<Longrightarrow> group g n \<noteq> None"
proof -
  from search_sound[OF assms] obtain u where u: "sem True CARD_RE u [] g" by blast
  from sem_groups[OF u card_grp_ok] show "all_groups card_group_shape g"
    by (simp add: all_groups_def)
  assume "n \<in> {''unidades'', ''piso_min'', ''dorms'', ''banos''}"
  with card_must sem_must[OF u] have "n \<in> fst ` set g" by blast
  then show "group g n \<noteq> None" by (simp add: group_def map_of_eq_None_iff)
qed

lemma digit_group_value:
  assumes "all_groups card_group_shape g" and "n \<in> set digit_groups"
  shows "int_if_set (group g n) d =
     (case group g n of
        None \<Rightarrow> Inr d
      | Some v \<Rightarrow>
          if length v \<le> int_max_str_digits then Inr (Some (digits_value v))
          else Inl (ValueError (exceeds_limit (length v))))"
    and "group g n = Some v \<Longrightarrow> v \<noteq> [] \<and> list_all is_decimal v"
proof -
  have shape: "v \<noteq> [] \<and> list_all is_decimal v" if "group g n = Some v" for v
  proof -
    from that have "(n, v) \<in> set g" by (simp add: group_def map_of_SomeD)
    with assms(1) have "card_group_shape n v" by (auto simp: all_groups_def list_all_iff)
    with assms(2) show ?thesis by (simp add: card_group_shape_def)
  qed
  then show "group g n = Some v \<Longrightarrow> v \<noteq> [] \<and> list_all is_decimal v" by blast
  show "int_if_set (group g n) d =
     (case group g n of
        None \<Rightarrow> Inr d
      | Some v \<Rightarrow>
          if length v \<le> int_max_str_digits then Inr (Some (digits_value v))
          else Inl (ValueError (exceeds_limit (length v))))"
  proof (cases "group g n")
    case None
    then show ?thesis by (simp add: int_if_set_def)
  next
    case (Some v)
    from shape[OF Some] py_int_digits[of v] Some show ?thesis
      by (simp add: int_if_set_def try_bind_def)
  qed
qed

section \<open>When the card parser returns\<close>

lemma case_map_option: "(case x of None \<Rightarrow> None | Some v \<Rightarrow> Some (f v)) = map_option f x"
  by (cases x) simp_all

lemma parse_card_text_nomatch:
  assumes "search True CARD_RE (fix_mojibake (clean_text c)) = None"
  shows "parse_card_text c =
     Inr \<lparr>modelo = [], area_m2 = float_spec (Some (fix_mojibake (clean_text c))),
          precio_desde = map_option of_int (money_spec (Some (fix_mojibake (clean_text c)))),
          moneda = None, unidades_disponibles = None, piso_min = None, piso_max = None,
          dormitorios = None, banos = None, raw = Some (fix_mojibake (clean_text c)),
          parse_ok = False\<rparr>"
  using assms
  by (simp add: parse_card_text_def Let_def try_bind_def parse_float_value parse_money_value)

text \<open>
  On a match the only step that can raise is \<open>int\<close>, on a number group with more
  digits than it converts.
\<close>

lemma parse_card_text_match:
  assumes "search True CARD_RE (fix_mojibake (clean_text c)) = Some g"
  shows "within_limit g \<Longrightarrow> parse_card_text c =
     Inr \<lparr>modelo = (case group g ''modelo'' of None \<Rightarrow> [] | Some m \<Rightarrow> m),
          area_m2 = float_spec (group g ''area''),
          precio_desde =
            map_option of_int
              (money_spec (Some (fmt (group g ''moneda'') @ [0x20] @ fmt (group g ''precio'')))),
          moneda = group g ''moneda'',
          unidades_disponibles = map_option digits_value (group g ''unidades''),
          piso_min = map_option digits_value (group g ''piso_min''),
          piso_max =
            (case group g ''piso_max'' of
               None \<Rightarrow> map_option digits_value (group g ''piso_min'')
             | Some v \<Rightarrow> Some (digits_value v)),
          dormitorios = map_option digits_value (group g ''dorms''),
          banos = map_option digits_value (group g ''banos''),
          raw = Some (fix_mojibake (clean_text c)), parse_ok = True\<rparr>"
    and "\<not> within_limit g \<Longrightarrow> \<exists>k. int_max_str_digits < k \<and>
           parse_card_text c = Inl (ValueError (exceeds_limit k))"
proof -
  note sh = card_groups(1)[OF assms]
  define ok where
    "ok n = (case group g n of None \<Rightarrow> True | Some v \<Rightarrow> length v \<le> int_max_str_digits)" for n
  define len where "len n = (case group g n of None \<Rightarrow> 0 | Some v \<Rightarrow> length v)" for n
  define val where
    "val n d = (case group g n of None \<Rightarrow> d | Some v \<Rightarrow> Some (digits_value v))"
    for n and d :: "int option"
  have ii: "int_if_set (group g n) d =
      (if ok n then Inr (val n d) else Inl (ValueError (exceeds_limit (len n))))"
    if "n \<in> set digit_groups" for n d
    using digit_group_value(1)[OF sh that, of d]
    by (cases "group g n") (simp_all add: ok_def val_def len_def)
  have big: "int_max_str_digits < len n" if "\<not> ok n" for n
    using that by (cases "group g n") (simp_all add: ok_def len_def)
  have tb: "try_bind (if b then Inr x else Inl e) f = (if b then f x else Inl e)"
    for b e and x :: "int option" and f :: "int option \<Rightarrow> exn + Tipologia"
    by (simp add: try_bind_def)
  have v1: "val n None = map_option digits_value (group g n)" for n
    by (cases "group g n") (simp_all add: val_def)
  have v2: "val ''piso_max'' (map_option digits_value (group g ''piso_min'')) =
      (case group g ''piso_max'' of
         None \<Rightarrow> map_option digits_value (group g ''piso_min'')
       | Some v \<Rightarrow> Some (digits_value v))"
    by (simp add: val_def)
  have wl: "within_limit g =
      (ok ''unidades'' \<and> ok ''piso_min'' \<and> ok ''piso_max'' \<and> ok ''dorms'' \<and> ok ''banos'')"
    by (simp add: within_limit_def digit_groups_def ok_def)
  have mem: "''unidades'' \<in> set digit_groups" "''piso_min'' \<in> set digit_groups"
    "''piso_max'' \<in> set digit_groups" "''dorms'' \<in> set digit_groups"
    "''banos'' \<in> set digit_groups"
    by (simp_all add: digit_groups_def)
  note steps = ii[OF mem(1)] ii[OF mem(2)] ii[OF mem(3)] ii[OF mem(4)] ii[OF mem(5)]
  have unf: "parse_card_text c =
      try_bind (int_if_set (group g ''piso_min'') None) (\<lambda>piso_min'.
      try_bind (int_if_set (group g ''piso_max'') piso_min') (\<lambda>piso_max'.
      try_bind (int_if_set (group g ''unidades'') None) (\<lambda>unidades.
      try_bind (int_if_set (group g ''dorms'') None) (\<lambda>dorms.
      try_bind (int_if_set (group g ''banos'') None) (\<lambda>banos'.
      Inr \<lparr>modelo = (case group g ''modelo'' of None \<Rightarrow> [] | Some m \<Rightarrow> m),
           area_m2 = float_spec (group g ''area''),
           precio_desde =
             map_option of_int
               (money_spec (Some (fmt (group g ''moneda'') @ [0x20] @ fmt (group g ''precio'')))),
           moneda = group g ''moneda'',
           unidades_disponibles = unidades, piso_min = piso_min', piso_max = piso_max',
           dormitorios = dorms, banos = banos', raw = Some (fix_mojibake (clean_text c)),
           parse_ok = True\<rparr>)))))"
    using assms
    by (simp add: parse_card_text_def Let_def try_bind_def parse_float_value parse_money_value)
  show "parse_card_text c =
     Inr \<lparr>modelo = (case group g ''modelo'' of None \<Rightarrow> [] | Some m \<Rightarrow> m),
          area_m2 = float_spec (group g ''area''),
          precio_desde =
            map_option of_int
              (money_spec (Some (fmt (group g ''moneda'') @ [0x20] @ fmt (group g ''precio'')))),
          moneda = group g ''moneda'',
          unidades_disponibles = map_option digits_value (group g ''unidades''),
          piso_min = map_option digits_value (group g ''piso_min''),
          piso_max =
            (case group g ''piso_max'' of
               None \<Rightarrow> map_option digits_value (group g ''piso_min'')
             | Some v \<Rightarrow> Some (digits_value v)),
          dormitorios = map_option digits_value (group g ''dorms''),
          banos = map_option digits_value (group g ''banos''),
          raw = Some (fix_mojibake (clean_text c)), parse_ok = True\<rparr>"
    if "within_limit g"
  proof -
    from that have "ok ''unidades''" "ok ''piso_min''" "ok ''piso_max''" "ok ''dorms''"
      "ok ''banos''" by (simp_all add: wl)
    then show ?thesis unfolding unf steps by (simp add: try_bind_def v1 v2)
  qed
  show "\<exists>k. int_max_str_digits < k \<and> parse_card_text c = Inl (ValueError (exceeds_limit k))"
    if "\<not> within_limit g"
  proof -
    from that have bad: "\<not> ok ''piso_min'' \<or> \<not> ok ''piso_max'' \<or> \<not> ok ''unidades'' \<or>
        \<not> ok ''dorms'' \<or> \<not> ok ''banos''"
      by (auto simp: wl)
    have "\<exists>n. \<not> ok n \<and> parse_card_text c = Inl (ValueError (exceeds_limit (len n)))"
    proof (cases "ok ''piso_min''")
      case False
      then have "parse_card_text c = Inl (ValueError (exceeds_limit (len ''piso_min'')))"
        unfolding unf steps by (simp add: try_bind_def)
      with False show ?thesis by blast
    next
      case a: True
      show ?thesis
      proof (cases "ok ''piso_max''")
        case False
        with a have "parse_card_text c = Inl (ValueError (exceeds_limit (len ''piso_max'')))"
          unfolding unf steps by (simp add: try_bind_def)
        with False show ?thesis by blast
      next
        case b: True
        show ?thesis
        proof (cases "ok ''unidades''")
          case False
          with a b have "parse_card_text c = Inl (ValueError (exceeds_limit (len ''unidades'')))"
            unfolding unf steps by (simp add: try_bind_def)
          with False show ?thesis by blast
        next
          case u: True
          show ?thesis
          proof (cases "ok ''dorms''")
            case False
            with a b u have "parse_card_text c = Inl (ValueError (exceeds_limit (len ''dorms'')))"
              unfolding unf steps by (simp add: try_bind_def)
            with False show ?thesis by blast
          next
            case d: True
            with bad a b u have n: "\<not> ok ''banos''" by blast
            with a b u d have "parse_card_text c = Inl (ValueError (exceeds_limit (len ''banos'')))"
              unfolding unf steps by (simp add: try_bind_def)
            with n show ?thesis by blast
          qed
        qed
      qed
    qed
    then obtain n where "\<not> ok n"
      and "parse_card_text c = Inl (ValueError (exceeds_limit (len n)))" by blast
    with big[of n] show ?thesis by blast
  qed
qed

lemma parse_card_text_returned:
  assumes "search True CARD_RE (fix_mojibake (clean_text c)) = Some g"
    and "parse_card_text c = Inr t"
  shows "within_limit g"
    and "t =
     \<lparr>modelo = (case group g ''modelo'' of None \<Rightarrow> [] | Some m \<Rightarrow> m),
      area_m2 = float_spec (group g ''area''),
      precio_desde =
        map_option of_int
          (money_spec (Some (fmt (group g ''moneda'') @ [0x20] @ fmt (group g ''precio'')))),
      moneda = group g ''moneda'',
      unidades_disponibles = map_option digits_value (group g ''unidades''),
      piso_min = map_option digits_value (group g ''piso_min''),
      piso_max =
        (case group g ''piso_max'' of
           None \<Rightarrow> map_option digits_value (group g ''piso_min'')
         | Some v \<Rightarrow> Some (digits_value v)),
      dormitorios = map_option digits_value (group g ''dorms''),
      banos = map_option digits_value (group g ''banos''),
      raw = Some (fix_mojibake (clean_text c)), parse_ok = True\<rparr>"
proof -
  show w: "within_limit g"
  proof (rule ccontr)
    assume "\<not> within_limit g"
    from parse_card_text_match(2)[OF assms(1) this] assms(2) show False by auto
  qed
  from parse_card_text_match(1)[OF assms(1) w] assms(2) show "t =
     \<lparr>modelo = (case group g ''modelo'' of None \<Rightarrow> [] | Some m \<Rightarrow> m),
      area_m2 = float_spec (group g ''area''),
      precio_desde =
        map_option of_int
          (money_spec (Some (fmt (group g ''moneda'') @ [0x20] @ fmt (group g ''precio'')))),
      moneda = group g ''moneda'',
      unidades_disponibles = map_option digits_value (group g ''unidades''),
      piso_min = map_option digits_value (group g ''piso_min''),
      piso_max =
        (case group g ''piso_max'' of
           None \<Rightarrow> map_option digits_value (group g ''piso_min'')
         | Some v \<Rightarrow> Some (digits_value v)),
      dormitorios = map_option digits_value (group g ''dorms''),
      banos = map_option digits_value (group g ''banos''),
      raw = Some (fix_mojibake (clean_text c)), parse_ok = True\<rparr>" by simp
qed

lemma decode_utf8_nonempty: "decode_utf8 bs = Some t \<Longrightarrow> bs \<noteq> [] \<Longrightarrow> t \<noteq> []"
  by (cases bs) (auto split: if_splits list.splits)

lemma fix_mojibake_nonempty: "s \<noteq> [] \<Longrightarrow> fix_mojibake s \<noteq> []"
  by (auto simp: fix_mojibake_def round_trip_def encode_latin1_def
           split: option.splits if_splits dest: decode_utf8_nonempty)

lemma dropWhile_keeps: "x \<in> set xs \<Longrightarrow> \<not> P x \<Longrightarrow> x \<in> set (dropWhile P xs)"
  by (induction xs) auto

lemma sub_spaces_keeps: "x \<in> set s \<Longrightarrow> \<not> is_space x \<Longrightarrow> x \<in> set (sub_spaces s)"
proof (induction s rule: sub_spaces.induct)
  case 1
  then show ?case by simp
next
  case (2 c cs)
  show ?case
  proof (cases "is_space c")
    case True
    with "2.prems" have "x \<in> set cs" by auto
    with "2.prems" have "x \<in> set (dropWhile is_space cs)" by (intro dropWhile_keeps)
    with True "2.IH"(1) "2.prems" show ?thesis by simp
  next
    case False
    with "2.IH"(2) "2.prems" show ?thesis by auto
  qed
qed

lemma clean_text_nonempty:
  assumes "x \<in> set s" and "\<not> is_space x"
  shows "clean_text s \<noteq> []"
proof -
  from assms have "x \<in> set (sub_spaces s)" by (rule sub_spaces_keeps)
  with assms(2) have "x \<in> set (dropWhile is_space (sub_spaces s))" by (intro dropWhile_keeps)
  then have "x \<in> set (rev (dropWhile is_space (sub_spaces s)))" by simp
  with assms(2) have "x \<in> set (dropWhile is_space (rev (dropWhile is_space (sub_spaces s))))"
    by (intro dropWhile_keeps)
  then have "x \<in> set (clean_text s)" by (simp add: clean_text_def strip_def)
  then show ?thesis by auto
qed

section \<open>Texts that \<open>CARD_RE\<close> cannot match\<close>

lemma search_sound_at:
  "search ic r t = Some g \<Longrightarrow> \<exists>pre u s'. t = pre @ u @ s' \<and> sem ic r u [] g"
proof (induction t)
  case Nil
  then have "rmatch ic r [] [] (\<lambda>s' g. Some g) = Some g" by simp
  from rmatch_sound[OF this] obtain u s' where "[] = u @ s'" "sem ic r u [] g" by auto
  then have "[] = [] @ u @ s' \<and> sem ic r u [] g" by simp
  then show ?case by blast
next
  case (Cons c cs)
  show ?case
  proof (cases "rmatch ic r (c # cs) [] (\<lambda>s' g. Some g)")
    case None
    with Cons.prems have "search ic r cs = Some g" by simp
    from Cons.IH[OF this] obtain pre u s' where "cs = pre @ u @ s'" "sem ic r u [] g" by blast
    then have "c # cs = (c # pre) @ u @ s' \<and> sem ic r u [] g" by simp
    then show ?thesis by blast
  next
    case (Some g0)
    with Cons.prems have "rmatch ic r (c # cs) [] (\<lambda>s' g. Some g) = Some g" by simp
    from rmatch_sound[OF this] obtain u s' where "c # cs = u @ s'" "sem ic r u [] g" by auto
    then have "c # cs = [] @ u @ s' \<and> sem ic r u [] g" by simp
    then show ?thesis by blast
  qed
qed

lemma CARD_RE_head:
  "\<exists>w rest. CARD_RE =
     Seq (Opt (Grp ''prefix'' (word (str ''Plano''))))
       (Seq (MaxRep 0 [Space])
          (Seq (Grp ''proyecto'' (MinRep 1 [AnyChar]))
             (Seq (MaxRep 0 [Space])
                (Seq (Grp ''unidades'' (MaxRep 1 [Digit]))
                   (Seq (MaxRep 1 [Space])
                      (Seq (Seq (In [Lit 0x75]) w) rest))))))"
  by (simp add: CARD_RE_def seq_def word_def str_def)

lemma u_not_space: "lit_match True 0x75 x \<Longrightarrow> \<not> is_space x"
proof -
  assume "lit_match True 0x75 x"
  moreover have "to_lower 0x75 = 0x75" and "extra_cases 0x75 = []"
    by (simp_all add: to_lower_def extra_cases_def)
  ultimately have "to_lower x = 0x75" by (simp add: lit_match_def)
  then have "x = 0x75 \<or> x = 0x55" by (simp add: to_lower_def split: if_splits)
  then show ?thesis by (auto simp: is_space_def)
qed

lemma sem_SeqD:
  "sem ic (Seq a b) u g g' \<Longrightarrow> \<exists>u1 u2 g1. u = u1 @ u2 \<and> sem ic b u2 g1 g'"
  by auto

lemma units_here_intro:
  assumes "is_decimal d" and "sp \<noteq> []" and "list_all is_space sp" and "lit_match True 0x75 x"
  shows "units_here (d # sp @ x # r)"
proof -
  from assms(2) obtain w sp' where sp: "sp = w # sp'" by (cases sp) auto
  with assms(3) have w: "is_space w" and sp': "\<forall>y\<in>set sp'. is_space y"
    by (auto simp: list_all_iff)
  from sp' u_not_space[OF assms(4)] have "dropWhile is_space (sp' @ x # r) = x # r"
    by (simp add: dropWhile_append2)
  with assms(1,4) w show ?thesis unfolding sp by simp
qed

lemma has_units_append: "units_here s \<Longrightarrow> has_units (a @ s)"
proof (induction a)
  case Nil
  then show ?case by (cases s) auto
next
  case (Cons c a)
  then show ?case by simp
qed

lemma card_needs_units:
  assumes "sem True CARD_RE u g g'"
  shows "has_units (tl (pre @ u @ s'))"
proof -
  from CARD_RE_head obtain w rest where c: "CARD_RE =
     Seq (Opt (Grp ''prefix'' (word (str ''Plano''))))
       (Seq (MaxRep 0 [Space])
          (Seq (Grp ''proyecto'' (MinRep 1 [AnyChar]))
             (Seq (MaxRep 0 [Space])
                (Seq (Grp ''unidades'' (MaxRep 1 [Digit]))
                   (Seq (MaxRep 1 [Space])
                      (Seq (Seq (In [Lit 0x75]) w) rest))))))" by blast
  from sem_SeqD[OF assms[unfolded c]] obtain u0 uR gm where uR: "u = u0 @ uR"
    and R: "sem True (Seq (MaxRep 0 [Space])
          (Seq (Grp ''proyecto'' (MinRep 1 [AnyChar]))
             (Seq (MaxRep 0 [Space])
                (Seq (Grp ''unidades'' (MaxRep 1 [Digit]))
                   (Seq (MaxRep 1 [Space])
                      (Seq (Seq (In [Lit 0x75]) w) rest)))))) uR gm g'" by blast
  from R obtain u1 u2 u3 u4 u5 x u7 where
    u': "uR = u1 @ u2 @ u3 @ u4 @ u5 @ x # u7"
    and l2: "1 \<le> length u2"
    and l4: "1 \<le> length u4" and d4: "\<forall>y\<in>set u4. is_decimal y"
    and l5: "1 \<le> length u5" and d5: "\<forall>y\<in>set u5. is_space y"
    and x: "lit_match True 0x75 x"
    by (auto simp: in_set_def list_all_iff)
  from uR u' have u: "u = u0 @ u1 @ u2 @ u3 @ u4 @ u5 @ x # u7" by simp
  from l2 have u2: "u2 \<noteq> []" by auto
  from l4 d4 have u4: "u4 \<noteq> []" "list_all is_decimal u4" by (auto simp: list_all_iff)
  from l5 d5 have u5: "u5 \<noteq> []" "list_all is_space u5" by (auto simp: list_all_iff)
  from u4 obtain b d where b: "u4 = b @ [d]" and d: "is_decimal d"
    by (cases u4 rule: rev_cases) auto
  from u2 obtain a0 a' where a: "pre @ u0 @ u1 @ u2 @ u3 @ b = a0 # a'"
    by (cases "pre @ u0 @ u1 @ u2 @ u3 @ b") auto
  have "pre @ u @ s' = (pre @ u0 @ u1 @ u2 @ u3 @ b) @ (d # u5 @ x # (u7 @ s'))"
    unfolding u b by simp
  also have "\<dots> = (a0 # a') @ (d # u5 @ x # (u7 @ s'))" by (simp only: a)
  finally have e: "pre @ u @ s' = (a0 # a') @ (d # u5 @ x # (u7 @ s'))" .
  have "tl (pre @ u @ s') = a' @ (d # u5 @ x # (u7 @ s'))" unfolding e by simp
  moreover have "units_here (d # u5 @ x # (u7 @ s'))"
    using d u5 x by (rule units_here_intro)
  ultimately show ?thesis by (simp add: has_units_append)
qed

lemma no_units_no_match: "\<not> has_units (tl t) \<Longrightarrow> search True CARD_RE t = None"
proof (rule ccontr)
  assume n: "\<not> has_units (tl t)" and "search True CARD_RE t \<noteq> None"
  then obtain g where "search True CARD_RE t = Some g" by auto
  from search_sound_at[OF this] obtain pre u s' where "t = pre @ u @ s'" "sem True CARD_RE u [] g"
    by blast
  with card_needs_units[of u "[]" g pre s'] n show False by simp
qed

lemma card_A209_search: "search True CARD_RE card_A209 = None"
proof -
  have "\<not> has_units (tl card_A209)" by code_simp
  then show ?thesis by (rule no_units_no_match)
qed

lemma card_A209_eval:
  "parse_card_text card_A209 =
     Inr \<lparr>modelo = [], area_m2 = Some 1, precio_desde = Some 1, moneda = None,
          unidades_disponibles = None, piso_min = None, piso_max = None,
          dormitorios = None, banos = None, raw = Some card_A209, parse_ok = False\<rparr>"
proof -
  have n: "fix_mojibake (clean_text card_A209) = card_A209" by code_simp
  have f: "parse_float (Some card_A209) = Inr (Some 1)" by code_simp
  have m: "parse_money_to_float (Some card_A209) = Inr (Some 1)" by code_simp
  from card_A209_search have s: "search True CARD_RE (fix_mojibake (clean_text card_A209)) = None"
    by (simp add: n)
  from f m show ?thesis
    unfolding parse_card_text_nomatch[OF s] n parse_float_value parse_money_value by simp
qed

section \<open>The card parser on the examples\<close>



text \<open>
  C1. On the first end-to-end example the card parser does return a full match with 27
  units, price 327550 in \<open>S/\<close>, floors 2 to 28, 2 bedrooms and 2 bathrooms, but the
  model code it returns is \<open>AX0157\<close> and the area is 4: the greedy model-code group
  takes every letter and digit up to the period, and the area group is left with
  \<open>.04\<close>. The specification and the assertion \<open>r1.modelo == "AX01"\<close> of
  tests/test_card_regex.py expect \<open>AX01\<close> and 57.04.
\<close>

theorem card_AX01_parsed:
  "parse_card_text card_AX01 =
     Inr \<lparr>modelo = str ''AX0157'', area_m2 = Some 4, precio_desde = Some 327550,
          moneda = Some (str ''S/''), unidades_disponibles = Some 27, piso_min = Some 2,
          piso_max = Some 28, dormitorios = Some 2, banos = Some 2,
          raw = Some card_AX01, parse_ok = True\<rparr>"
  by code_simp

text \<open>The same happens on the text \<open>t1\<close> of the repository's own test.\<close>

lemma test_t1_parsed:
  "parse_card_text test_t1 =
     Inr \<lparr>modelo = str ''AX0157'', area_m2 = Some 4, precio_desde = Some 327550,
          moneda = Some (str ''S/''), unidades_disponibles = Some 27, piso_min = Some 2,
          piso_max = Some 28, dormitorios = Some 2, banos = Some 2,
          raw = Some (fix_mojibake (clean_text test_t1)), parse_ok = True\<rparr>"
  by code_simp

text \<open>
  C2, as stated, fails on a text made of one space: the input is not empty, the
  normalised text kept in \<open>raw\<close> is.
\<close>

theorem blank_card_raw_empty:
  "[0x20] \<noteq> ([]::pystr) \<and>
   parse_card_text [0x20] =
     Inr \<lparr>modelo = [], area_m2 = None, precio_desde = None, moneda = None,
          unidades_disponibles = None, piso_min = None, piso_max = None,
          dormitorios = None, banos = None, raw = Some [], parse_ok = False\<rparr>"
proof
  show "[0x20] \<noteq> ([]::pystr)" by simp
  show "parse_card_text [0x20] =
     Inr \<lparr>modelo = [], area_m2 = None, precio_desde = None, moneda = None,
          unidades_disponibles = None, piso_min = None, piso_max = None,
          dormitorios = None, banos = None, raw = Some [], parse_ok = False\<rparr>"
    by code_simp
qed

text \<open>
  C2, amended. Every record \<open>t\<close> that \<open>parse_card_text\<close> returns has the
  normalised input as its \<open>raw\<close>. If \<open>parse_ok\<close> is false then \<open>modelo\<close> is empty,
  \<open>area_m2\<close> and \<open>precio_desde\<close> are what \<open>parse_float\<close> and
  \<open>parse_money_to_float\<close> return on the whole normalised text, and the units, both
  floors, the bedrooms and the bathrooms are unset. \<open>raw\<close> is not empty whenever the
  input has a character that is not white space.
\<close>

theorem parse_card_text_fallback:
  "parse_card_text c = Inr t \<longrightarrow>
     raw t = Some (fix_mojibake (clean_text c)) \<and>
     (\<not> parse_ok t \<longrightarrow>
        modelo t = [] \<and>
        parse_float (Some (fix_mojibake (clean_text c))) = Inr (area_m2 t) \<and>
        parse_money_to_float (Some (fix_mojibake (clean_text c))) = Inr (precio_desde t) \<and>
        unidades_disponibles t = None \<and> piso_min t = None \<and> piso_max t = None \<and>
        dormitorios t = None \<and> banos t = None) \<and>
     ((\<exists>x\<in>set c. \<not> is_space x) \<longrightarrow> raw t \<noteq> Some [])"
proof
  assume r: "parse_card_text c = Inr t"
  have ne: "(\<exists>x\<in>set c. \<not> is_space x) \<longrightarrow> fix_mojibake (clean_text c) \<noteq> []"
    using clean_text_nonempty fix_mojibake_nonempty by blast
  show "raw t = Some (fix_mojibake (clean_text c)) \<and>
     (\<not> parse_ok t \<longrightarrow>
        modelo t = [] \<and>
        parse_float (Some (fix_mojibake (clean_text c))) = Inr (area_m2 t) \<and>
        parse_money_to_float (Some (fix_mojibake (clean_text c))) = Inr (precio_desde t) \<and>
        unidades_disponibles t = None \<and> piso_min t = None \<and> piso_max t = None \<and>
        dormitorios t = None \<and> banos t = None) \<and>
     ((\<exists>x\<in>set c. \<not> is_space x) \<longrightarrow> raw t \<noteq> Some [])"
  proof (cases "search True CARD_RE (fix_mojibake (clean_text c))")
    case None
    from parse_card_text_nomatch[OF this] r ne show ?thesis
      by (auto simp: parse_float_value parse_money_value)
  next
    case (Some g)
    from parse_card_text_returned(2)[OF this r] ne show ?thesis by simp
  qed
qed

theorem parse_card_text_fallback_witness:
  "\<exists>t. parse_card_text card_A209 = Inr t \<and> \<not> parse_ok t \<and>
       (\<exists>x\<in>set card_A209. \<not> is_space x) \<and>
       raw t = Some (fix_mojibake (clean_text card_A209)) \<and> modelo t = [] \<and>
       parse_float (Some (fix_mojibake (clean_text card_A209))) = Inr (area_m2 t) \<and>
       parse_money_to_float (Some (fix_mojibake (clean_text card_A209))) = Inr (precio_desde t) \<and>
       unidades_disponibles t = None \<and> piso_min t = None \<and> piso_max t = None \<and>
       dormitorios t = None \<and> banos t = None \<and> raw t \<noteq> Some []"
proof -
  from card_A209_eval obtain t where t: "parse_card_text card_A209 = Inr t"
    and no: "\<not> parse_ok t" by auto
  have sp: "\<exists>x\<in>set card_A209. \<not> is_space x" by code_simp
  from parse_card_text_fallback[of card_A209 t] t no sp show ?thesis by blast
qed

text \<open>
  C3, as stated, fails: the text of the second end-to-end example starts with the
  number of units, and \<open>CARD_RE\<close> wants at least one character of project name before
  it, so there is no match and no record with model code \<open>A-209\<close>.
\<close>

theorem card_A209_not_parsed:
  "\<not> (\<exists>t. parse_card_text card_A209 = Inr t \<and> modelo t = str ''A-209'' \<and>
          unidades_disponibles t = Some 1 \<and> piso_min t = Some 2 \<and> piso_max t = Some 2 \<and>
          dormitorios t = Some 1 \<and> banos t = Some 1)"
  using card_A209_eval by auto

text \<open>
  C3, amended. For that text the card parser returns the degraded record: \<open>parse_ok\<close>
  false, no model code, no currency, no units, floors, bedrooms or bathrooms, the
  normalised text in \<open>raw\<close>, and as area and price the first number of the text,
  which is 1.
\<close>

theorem card_A209_fallback:
  "parse_card_text card_A209 =
     Inr \<lparr>modelo = [], area_m2 = Some 1, precio_desde = Some 1, moneda = None,
          unidades_disponibles = None, piso_min = None, piso_max = None,
          dormitorios = None, banos = None, raw = Some card_A209, parse_ok = False\<rparr>"
  by (rule card_A209_eval)




section \<open>The card extractor on a page without a unit of area\<close>

text \<open>
  C8. On a page whose only container element reads \<open>Modelo Desde m\<close> no selector has
  an element, the keyword scan runs, and it keeps that text, although the text holds
  neither the unit of area nor its mojibake form: the test \<open>"m" in txt\<close>, first of
  the three alternatives of the source, is satisfied by any lower-case m.
\<close>

theorem extract_keeps_text_without_unit:
  "extract_card_texts (\<lambda>h. Inr page_no_unit) (str ''<div>Modelo Desde m</div>'') =
     Inr [str ''Modelo Desde m''] \<and>
   contains (str ''m'' @ [0xB2]) (str ''Modelo Desde m'') = False \<and>
   contains (str ''m'' @ [0xC2, 0xB2]) (str ''Modelo Desde m'') = False"
  by code_simp

section \<open>Cards short enough for \<open>int\<close>\<close>








section \<open>The project parser\<close>













end
